theory Spec2Isabelle
  imports Complex_Main
begin

section \<open>SermonSlicer: the offset estimator and the sync pipeline of cut.py\<close>

text \<open>
  The development embeds \<^verbatim>\<open>cut.py\<close>. Samples are modelled as exact reals: the
  FFT-based convolution of scipy is taken at its mathematical meaning (the full linear
  convolution), so round-off inside the FFT is abstracted away. Every \<^verbatim>\<open>sys.exit\<close>,
  every exception that a library call raises and every failing subprocess is a value of
  the type \<open>error\<close>.
\<close>

subsection \<open>Errors\<close>

datatype error =
    SystemExit nat string  \<comment> \<open>\<^verbatim>\<open>print(msg); sys.exit(code)\<close>\<close>
  | ValueError             \<comment> \<open>raised by numpy on an empty sequence, by \<^verbatim>\<open>float()\<close> on a bad string\<close>
  | CalledProcessError     \<comment> \<open>\<^verbatim>\<open>subprocess.run(..., check=True)\<close> on a non-zero exit status\<close>
  | FileNotFoundError      \<comment> \<open>a missing executable, or \<^verbatim>\<open>unlink\<close> of a missing file\<close>
  | LoadError              \<comment> \<open>\<^verbatim>\<open>librosa.load\<close> cannot decode the file\<close>

subsection \<open>Signals and the numpy/scipy primitives used by the estimator\<close>

type_synonym signal = "real list"

definition sr :: nat where
  \<comment> \<open>\<^verbatim>\<open>librosa.load(..., sr=14700)\<close>\<close>
  "sr = 14700"

definition fftconvolve :: "signal \<Rightarrow> signal \<Rightarrow> signal" where
  \<comment> \<open>\<^verbatim>\<open>scipy.signal.fftconvolve(in1, in2, mode="full")\<close>: an empty input gives the empty
      array; otherwise output point \<open>j\<close> is the sum of \<open>in1[i] * in2[j - i]\<close> over the
      indices where both operands exist, for \<open>len(in1) + len(in2) - 1\<close> points.\<close>
  "fftconvolve in1 in2 =
     (if in1 = [] \<or> in2 = [] then []
      else map (\<lambda>j. \<Sum>i\<leftarrow>[0..<length in1].
                      if i \<le> j \<and> j - i < length in2 then in1 ! i * in2 ! (j - i) else 0)
               [0..<length in1 + length in2 - 1])"

definition np_max :: "real list \<Rightarrow> error + real" where
  \<comment> \<open>\<^verbatim>\<open>np.max\<close>: raises ValueError on an empty array\<close>
  "np_max xs = (if xs = [] then Inl ValueError else Inr (Max (set xs)))"

definition np_argmax :: "real list \<Rightarrow> error + nat" where
  \<comment> \<open>\<^verbatim>\<open>np.argmax\<close>: the index of the first occurrence of the maximum; raises ValueError on
      an empty array\<close>
  "np_argmax xs =
     (if xs = [] then Inl ValueError
      else Inr (length (takeWhile (\<lambda>x. x \<noteq> Max (set xs)) xs)))"

subsection \<open>find_audio_offset\<close>

definition truncate_probe :: "signal \<Rightarrow> signal" where
  \<comment> \<open>\<^verbatim>\<open>wav_y = wav_y[:sr*60]\<close>\<close>
  "truncate_probe wav_y = take (sr * 60) wav_y"

definition correlation :: "signal \<Rightarrow> signal \<Rightarrow> signal" where
  \<comment> \<open>\<^verbatim>\<open>correlation = fftconvolve(video_y, wav_y[::-1], mode="full")\<close>, on the truncated probe\<close>
  "correlation video_y wav_y = fftconvolve video_y (rev (truncate_probe wav_y))"

definition best_offset :: "signal \<Rightarrow> signal \<Rightarrow> error + int" where
  \<comment> \<open>\<^verbatim>\<open>best_offset = np.argmax(correlation) - len(wav_y)\<close>, a signed sample lag\<close>
  "best_offset video_y wav_y =
     (case np_argmax (correlation video_y wav_y) of
        Inl e \<Rightarrow> Inl e
      | Inr i \<Rightarrow> Inr (int i - int (length (truncate_probe wav_y))))"

definition no_alignment_msg :: string where
  "no_alignment_msg = ''Error: No good alignment found.  Are you sure the audio and video match?''"

definition find_audio_offset :: "signal \<Rightarrow> signal \<Rightarrow> error + real" where
  \<comment> \<open>The two arguments are the sample arrays that \<^verbatim>\<open>librosa.load\<close> returns for the
      extracted video audio and for the external audio.\<close>
  "find_audio_offset video_y wav_y =
     (case best_offset video_y wav_y of
        Inl e \<Rightarrow> Inl e
      | Inr b \<Rightarrow>
          (case np_max (correlation video_y wav_y) of
             Inl e \<Rightarrow> Inl e
           | Inr peak \<Rightarrow>
               if peak < 1000 then Inl (SystemExit 1 no_alignment_msg)
               else (let offset_seconds = real_of_int b / real sr
                     in Inr (max offset_seconds 0))))"

subsection \<open>Strings: strip, isdigit, int and str\<close>

definition py_isspace :: "char \<Rightarrow> bool" where
  \<comment> \<open>the ASCII characters that \<^verbatim>\<open>str.strip()\<close> removes\<close>
  "py_isspace c = (let n = (of_char c :: nat) in (9 \<le> n \<and> n \<le> 13) \<or> (28 \<le> n \<and> n \<le> 32))"

definition py_strip :: "string \<Rightarrow> string" where
  "py_strip s = rev (dropWhile py_isspace (rev (dropWhile py_isspace s)))"

definition is_digit_char :: "char \<Rightarrow> bool" where
  "is_digit_char c = (let n = (of_char c :: nat) in 48 \<le> n \<and> n \<le> 57)"

definition py_isdigit :: "string \<Rightarrow> bool" where
  \<comment> \<open>\<^verbatim>\<open>str.isdigit()\<close>: non-empty and every character a digit\<close>
  "py_isdigit s = (s \<noteq> [] \<and> list_all is_digit_char s)"

definition py_int :: "string \<Rightarrow> nat" where
  \<comment> \<open>\<^verbatim>\<open>int(s)\<close> on a string of decimal digits\<close>
  "py_int s = foldl (\<lambda>a c. 10 * a + (of_char c - 48)) 0 s"

definition digit_char :: "nat \<Rightarrow> char" where
  "digit_char d = ''0123456789'' ! d"

fun str_nat :: "nat \<Rightarrow> string" where
  \<comment> \<open>\<^verbatim>\<open>str(n)\<close> for a non-negative integer\<close>
  "str_nat n = (if n < 10 then [digit_char n]
                else str_nat (n div 10) @ [digit_char (n mod 10)])"

definition str_bitrate :: "nat option \<Rightarrow> string" where
  \<comment> \<open>\<^verbatim>\<open>str(bitrate)\<close>, where \<^verbatim>\<open>bitrate\<close> is an int or None\<close>
  "str_bitrate b = (case b of None \<Rightarrow> ''None'' | Some n \<Rightarrow> str_nat n)"

subsection \<open>Paths, the outside world and the state of a run\<close>

type_synonym path = "string list"
  \<comment> \<open>a \<^verbatim>\<open>pathlib.Path\<close> as its components\<close>

definition parent :: "path \<Rightarrow> path" where
  "parent p = butlast p"

fun path_str :: "path \<Rightarrow> string" where
  "path_str [] = ''.''"
| "path_str [c] = c"
| "path_str (c # cs) = c @ ''/'' @ path_str cs"

record completed =
  returncode :: nat
  stdout :: string

record world =
  which :: "string \<Rightarrow> bool"
    \<comment> \<open>\<^verbatim>\<open>shutil.which(name)\<close> finds the tool\<close>
  subprocess_run :: "string list \<Rightarrow> error + completed"
    \<comment> \<open>\<^verbatim>\<open>subprocess.run(argv)\<close> without \<^verbatim>\<open>check\<close>; \<open>Inl\<close> when the call itself raises\<close>
  librosa_load :: "path \<Rightarrow> error + signal"
    \<comment> \<open>\<^verbatim>\<open>librosa.load(path, sr=14700)\<close>\<close>
  py_float :: "string \<Rightarrow> real option"
    \<comment> \<open>\<^verbatim>\<open>float(s)\<close>; \<open>None\<close> is ValueError\<close>
  str_float :: "real \<Rightarrow> string"
    \<comment> \<open>\<^verbatim>\<open>str(x)\<close> of a float\<close>

datatype step =
    CheckTool | ProbeDuration | ExtractAudio | EstimateOffset
  | ProbeBitrate | BuildRequest | Transcode | Cleanup

record state =
  files :: "path set"          \<comment> \<open>the files that exist\<close>
  trace :: "step list"         \<comment> \<open>the steps begun so far, oldest first\<close>
  requests :: "string list list"  \<comment> \<open>the transcode requests handed to the transcoder\<close>

definition enter :: "step \<Rightarrow> state \<Rightarrow> state" where
  "enter st s = s\<lparr>trace := trace s @ [st]\<rparr>"

definition run_checked :: "world \<Rightarrow> string list \<Rightarrow> error + completed" where
  \<comment> \<open>\<^verbatim>\<open>subprocess.run(argv, check=True)\<close>\<close>
  "run_checked w argv =
     (case subprocess_run w argv of
        Inl e \<Rightarrow> Inl e
      | Inr c \<Rightarrow> if returncode c \<noteq> 0 then Inl CalledProcessError else Inr c)"

definition unlink :: "bool \<Rightarrow> path \<Rightarrow> state \<Rightarrow> (error + unit) \<times> state" where
  \<comment> \<open>\<^verbatim>\<open>Path.unlink(missing_ok=...)\<close>\<close>
  "unlink missing_ok p s =
     (if p \<in> files s then (Inr (), s\<lparr>files := files s - {p}\<rparr>)
      else if missing_ok then (Inr (), s)
      else (Inl FileNotFoundError, s))"

subsection \<open>The helpers of the pipeline\<close>

definition check_ffmpeg :: "world \<Rightarrow> error + unit" where
  "check_ffmpeg w =
     (if \<not> which w ''ffmpeg''
      then Inl (SystemExit 1 ''Error: FFmpeg is not installed or not in PATH.'')
      else Inr ())"

definition extract_command :: "path \<Rightarrow> path \<Rightarrow> string list" where
  "extract_command input_file output_wav =
     [''ffmpeg'', ''-y'', ''-i'', path_str input_file, ''-ac'', ''1'', ''-ar'', ''14700'',
      ''-vn'', ''-f'', ''wav'', path_str output_wav]"

definition extract_audio :: "world \<Rightarrow> path \<Rightarrow> path \<Rightarrow> state \<Rightarrow> (error + unit) \<times> state" where
  \<comment> \<open>a successful extraction leaves the WAV file in place\<close>
  "extract_audio w input_file output_wav s =
     (case run_checked w (extract_command input_file output_wav) of
        Inl e \<Rightarrow> (Inl e, s)
      | Inr c \<Rightarrow> (Inr (), s\<lparr>files := insert output_wav (files s)\<rparr>))"

definition duration_command :: "path \<Rightarrow> string list" where
  "duration_command audio_file =
     [''ffprobe'', ''-i'', path_str audio_file, ''-show_entries'', ''format=duration'',
      ''-v'', ''quiet'', ''-of'', ''csv=p=0'']"

definition get_audio_duration :: "world \<Rightarrow> path \<Rightarrow> error + real" where
  \<comment> \<open>only CalledProcessError is caught and turned into exit status 1\<close>
  "get_audio_duration w audio_file =
     (case run_checked w (duration_command audio_file) of
        Inl CalledProcessError \<Rightarrow>
          Inl (SystemExit 1 ''Error: Could not determine audio duration.'')
      | Inl e \<Rightarrow> Inl e
      | Inr result \<Rightarrow>
          (case py_float w (py_strip (stdout result)) of
             None \<Rightarrow> Inl ValueError
           | Some d \<Rightarrow> Inr d))"

definition bitrate_command :: "path \<Rightarrow> string list" where
  "bitrate_command video_file =
     [''ffprobe'', ''-v'', ''error'', ''-select_streams'', ''v:0'',
      ''-show_entries'', ''stream=bit_rate'',
      ''-of'', ''default=noprint_wrappers=1:nokey=1'', path_str video_file]"

definition get_video_bitrate :: "world \<Rightarrow> path \<Rightarrow> nat option" where
  \<comment> \<open>no \<^verbatim>\<open>check\<close>; every exception is caught and gives None\<close>
  "get_video_bitrate w video_file =
     (case subprocess_run w (bitrate_command video_file) of
        Inl e \<Rightarrow> None
      | Inr result \<Rightarrow>
          (let bitrate = py_strip (stdout result)
           in if py_isdigit bitrate then Some (py_int bitrate) else None))"

definition load_and_find_offset :: "world \<Rightarrow> path \<Rightarrow> path \<Rightarrow> error + real" where
  \<comment> \<open>\<^verbatim>\<open>find_audio_offset\<close> on file names: the two loads, then the estimator\<close>
  "load_and_find_offset w video_audio external_audio =
     (case librosa_load w video_audio of
        Inl e \<Rightarrow> Inl e
      | Inr video_y \<Rightarrow>
          (case librosa_load w external_audio of
             Inl e \<Rightarrow> Inl e
           | Inr wav_y \<Rightarrow> find_audio_offset video_y wav_y))"

definition transcode_command ::
  "world \<Rightarrow> real \<Rightarrow> path \<Rightarrow> path \<Rightarrow> nat option \<Rightarrow> real \<Rightarrow> path \<Rightarrow> string list" where
  \<comment> \<open>the list \<^verbatim>\<open>command\<close> of \<^verbatim>\<open>process_video\<close>\<close>
  "transcode_command w offset_seconds input_video input_audio bitrate duration output_video =
     [''ffmpeg'', ''-y'',
      ''-ss'', str_float w offset_seconds,
      ''-i'', path_str input_video,
      ''-i'', path_str input_audio,
      ''-map'', ''0:v:0'',
      ''-map'', ''1:a:0'',
      ''-c:v'', ''libx265'',
      ''-c:a'', ''aac'',
      ''-b:v'', str_bitrate bitrate,
      ''-b:a'', ''128k'',
      ''-t'', str_float w duration,
      ''-vf'', ''fade=t=out:st='' @ str_float w (duration - 1) @ '':d=1'',
      path_str output_video]"

subsection \<open>process_video and the command line\<close>

definition temp_audio :: "path \<Rightarrow> path" where
  \<comment> \<open>\<^verbatim>\<open>input_video.parent / "temp_video_audio.wav"\<close>\<close>
  "temp_audio input_video = parent input_video @ [''temp_video_audio.wav'']"

definition process_video ::
  "world \<Rightarrow> path \<Rightarrow> path \<Rightarrow> path \<Rightarrow> state \<Rightarrow> (error + unit) \<times> state" where
  "process_video w input_video input_audio output_video s0 =
     (let s1 = enter CheckTool s0 in
      case check_ffmpeg w of
        Inl e \<Rightarrow> (Inl e, s1)
      | Inr u \<Rightarrow>
     (let s2 = enter ProbeDuration s1 in
      case get_audio_duration w input_audio of
        Inl e \<Rightarrow> (Inl e, s2)
      | Inr duration \<Rightarrow>
     (let extracted_audio = temp_audio input_video;
          s3 = enter ExtractAudio s2 in
      case extract_audio w input_video extracted_audio s3 of
        (Inl e, s4) \<Rightarrow> (Inl e, s4)
      | (Inr u, s4) \<Rightarrow>
     (let s5 = enter EstimateOffset s4 in
      case load_and_find_offset w extracted_audio input_audio of
        Inl e \<Rightarrow> (Inl e, s5)
      | Inr offset_seconds \<Rightarrow>
     (let s6 = enter ProbeBitrate s5;
          bitrate = get_video_bitrate w input_video;
          s7 = enter BuildRequest s6;
          command = transcode_command w offset_seconds input_video input_audio
                      bitrate duration output_video;
          s8 = (enter Transcode s7)\<lparr>requests := requests s7 @ [command]\<rparr> in
      case run_checked w command of
        Inl e \<Rightarrow> (Inl e, s8)
      | Inr c \<Rightarrow>
          unlink True extracted_audio
            (enter Cleanup (s8\<lparr>files := insert output_video (files s8)\<rparr>)))))))"

definition usage_msg :: string where
  "usage_msg = ''Usage: python process_video.py <input.mp4> <input.wav> <output.mp4>''"

definition main :: "world \<Rightarrow> path list \<Rightarrow> state \<Rightarrow> (error + unit) \<times> state" where
  \<comment> \<open>the \<^verbatim>\<open>__main__\<close> block; \<open>argv\<close> holds the arguments as paths, the script name first\<close>
  "main w argv s =
     (if length argv < 4 then (Inl (SystemExit 1 usage_msg), s)
      else
        (let input_video = argv ! 1; input_audio = argv ! 2; output_video = argv ! 3 in
         if input_video \<notin> files s \<or> input_audio \<notin> files s
         then (Inl (SystemExit 1 ''Error: One or more input files do not exist.''), s)
         else process_video w input_video input_audio output_video s))"

definition exit_status :: "error + unit \<Rightarrow> nat" where
  \<comment> \<open>the status of the Python process: \<^verbatim>\<open>sys.exit(n)\<close> gives \<open>n\<close>, an uncaught exception 1\<close>
  "exit_status r = (case r of Inr u \<Rightarrow> 0 | Inl (SystemExit n msg) \<Rightarrow> n | Inl e \<Rightarrow> 1)"

definition pipeline_order :: "step list" where
  "pipeline_order =
     [CheckTool, ProbeDuration, ExtractAudio, EstimateOffset,
      ProbeBitrate, BuildRequest, Transcode, Cleanup]"

subsection \<open>A concrete world for the examples\<close>

definition demo_world :: "signal \<Rightarrow> signal \<Rightarrow> string \<Rightarrow> nat \<Rightarrow> world" where
  \<comment> \<open>Both tools are installed; the duration query prints \<open>12.5\<close>; the bitrate query prints
      \<open>bitrate_out\<close>; the final transcode exits with status \<open>transcode_rc\<close>; the extracted
      audio decodes to \<open>video_y\<close> and the external audio to \<open>wav_y\<close>.\<close>
  "demo_world video_y wav_y bitrate_out transcode_rc =
     \<lparr> which = (\<lambda>name. name = ''ffmpeg''),
       subprocess_run = (\<lambda>argv.
         if take 2 argv = [''ffprobe'', ''-v'']
           then Inr \<lparr>returncode = 0, stdout = bitrate_out\<rparr>
         else if take 2 argv = [''ffprobe'', ''-i'']
           then Inr \<lparr>returncode = 0, stdout = ''12.5'' @ [CHR 0x0A]\<rparr>
         else if take 3 argv = [''ffmpeg'', ''-y'', ''-ss'']
           then Inr \<lparr>returncode = transcode_rc, stdout = []\<rparr>
         else Inr \<lparr>returncode = 0, stdout = []\<rparr>),
       librosa_load = (\<lambda>p. if p = [''temp_video_audio.wav''] then Inr video_y else Inr wav_y),
       py_float = (\<lambda>s. if s = ''12.5'' then Some (25 / 2) else None),
       str_float = (\<lambda>x. if x = 0 then ''0''
                        else if x = 25 / 2 then ''12.5''
                        else if x = 23 / 2 then ''11.5''
                        else if x = 1 / 14700 then ''6.802721088435374e-05''
                        else ''?'') \<rparr>"

definition start :: "path set \<Rightarrow> state" where
  \<comment> \<open>the state before a run: the files present, nothing done yet\<close>
  "start fs = \<lparr>files = fs, trace = [], requests = []\<rparr>"


section \<open>Properties of the estimator\<close>

subsection \<open>Facts about the numpy primitives\<close>

lemma length_fftconvolve:
  "length (fftconvolve a b) = (if a = [] \<or> b = [] then 0 else length a + length b - 1)"
  by (simp add: fftconvolve_def)

lemma length_takeWhile_lt:
  "\<exists>x\<in>set xs. \<not> P x \<Longrightarrow> length (takeWhile P xs) < length xs"
  by (induction xs) auto

lemma np_argmax_InrD:
  assumes "np_argmax xs = Inr i"
  shows "i < length xs" and "xs ! i = Max (set xs)" and "\<forall>j<i. xs ! j < Max (set xs)"
proof -
  let ?P = "\<lambda>x. x \<noteq> Max (set xs)"
  from assms have ne: "xs \<noteq> []" and i: "i = length (takeWhile ?P xs)"
    by (auto simp: np_argmax_def split: if_splits)
  from ne have "Max (set xs) \<in> set xs" by simp
  then have "\<exists>x\<in>set xs. \<not> ?P x" by blast
  then show lt: "i < length xs" unfolding i by (rule length_takeWhile_lt)
  from lt show "xs ! i = Max (set xs)"
    unfolding i using nth_length_takeWhile [of ?P xs] by simp
  show "\<forall>j<i. xs ! j < Max (set xs)"
  proof (intro allI impI)
    fix j assume j: "j < i"
    then have "takeWhile ?P xs ! j \<in> set (takeWhile ?P xs)" unfolding i by simp
    then have "?P (takeWhile ?P xs ! j)" by (rule set_takeWhileD [THEN conjunct2])
    moreover have "takeWhile ?P xs ! j = xs ! j" using j unfolding i by (rule takeWhile_nth)
    moreover have "xs ! j \<le> Max (set xs)" using j lt by simp
    ultimately show "xs ! j < Max (set xs)" by simp
  qed
qed

lemma np_argmax_first:
  assumes "i < length xs" and "xs ! i = Max (set xs)" and "np_argmax xs = Inr a"
  shows "a \<le> i"
proof (rule ccontr)
  assume "\<not> a \<le> i"
  then have "i < a" by simp
  with np_argmax_InrD(3) [OF assms(3)] have "xs ! i < Max (set xs)" by blast
  with assms(2) show False by simp
qed

lemma np_argmax_nonempty: "xs \<noteq> [] \<Longrightarrow> \<exists>i. np_argmax xs = Inr i"
  by (simp add: np_argmax_def)

lemma truncate_probe_short: "length wav_y \<le> 882000 \<Longrightarrow> truncate_probe wav_y = wav_y"
  by (simp add: truncate_probe_def sr_def)

lemma truncate_probe_idem: "truncate_probe (truncate_probe wav_y) = truncate_probe wav_y"
  by (simp add: truncate_probe_def)

lemma correlation_truncate: "correlation video_y (truncate_probe wav_y) = correlation video_y wav_y"
  by (simp add: correlation_def truncate_probe_idem)

lemma best_offset_truncate: "best_offset video_y (truncate_probe wav_y) = best_offset video_y wav_y"
  unfolding best_offset_def correlation_truncate truncate_probe_idem ..

lemma find_audio_offset_truncate:
  "find_audio_offset video_y (truncate_probe wav_y) = find_audio_offset video_y wav_y"
  unfolding find_audio_offset_def correlation_truncate best_offset_truncate ..

lemma find_audio_offset_InrD:
  assumes "find_audio_offset video_y wav_y = Inr r"
  obtains i where "np_argmax (correlation video_y wav_y) = Inr i"
    and "best_offset video_y wav_y = Inr (int i - int (length (truncate_probe wav_y)))"
    and "np_max (correlation video_y wav_y) = Inr (Max (set (correlation video_y wav_y)))"
    and "\<not> Max (set (correlation video_y wav_y)) < 1000"
    and "r = max (real_of_int (int i - int (length (truncate_probe wav_y))) / real sr) 0"
  using assms
  by (auto simp: find_audio_offset_def best_offset_def np_max_def Let_def
           split: sum.splits if_splits)

lemma correlation_nonempty:
  assumes "np_argmax (correlation video_y wav_y) = Inr i"
  shows "video_y \<noteq> []" and "truncate_probe wav_y \<noteq> []"
    and "i + 2 \<le> length video_y + length (truncate_probe wav_y)"
proof -
  from np_argmax_InrD(1) [OF assms]
  have "i < length (fftconvolve video_y (rev (truncate_probe wav_y)))"
    by (simp add: correlation_def)
  then have *: "video_y \<noteq> [] \<and> truncate_probe wav_y \<noteq> []
      \<and> i < length video_y + length (truncate_probe wav_y) - 1"
    by (simp add: length_fftconvolve split: if_splits)
  then show "video_y \<noteq> []" and "truncate_probe wav_y \<noteq> []"
    by simp_all
  from * show "i + 2 \<le> length video_y + length (truncate_probe wav_y)"
    by linarith
qed

lemmas estimator_eval =
  find_audio_offset_def best_offset_def correlation_def truncate_probe_short sr_def
  fftconvolve_def np_argmax_def np_max_def upt_conv_Cons nth_Cons'

subsection \<open>C4: the returned offset is never negative\<close>

text \<open>
  Claim C4. Whenever \<open>find_audio_offset\<close> returns an offset, that offset is non-negative:
  it is the raw offset (the sample lag divided by the sample rate) when that is not
  negative, and zero when the raw offset is negative.
\<close>

theorem offset_clamped_nonneg:
  assumes "find_audio_offset video_y wav_y = Inr r"
  shows "0 \<le> r \<and>
         (\<exists>b. best_offset video_y wav_y = Inr b \<and>
              r = (if real_of_int b / real sr < 0 then 0 else real_of_int b / real sr))"
  using assms
  by (auto simp: find_audio_offset_def Let_def split: sum.splits if_splits)

theorem offset_clamped_nonneg_witness:
  "find_audio_offset [40] [40] = Inr 0 \<and> best_offset [40] [40] = Inr (- 1) \<and>
   (0::real) = (if real_of_int (- 1) / real sr < 0 then 0 else real_of_int (- 1) / real sr)"
proof -
  have h: "find_audio_offset [40] [40] = Inr 0"
    by (simp add: estimator_eval)
  have b: "best_offset [40] [40] = Inr (- 1)"
    by (simp add: estimator_eval)
  show ?thesis using h b offset_clamped_nonneg [OF h] by simp
qed

subsection \<open>C5: the probe is cut to the analysis window\<close>

text \<open>
  Claim C5. Before the correlation the probe is cut to its first \<open>60 * 14700\<close> samples
  (60 seconds at the working sample rate): the probe that is correlated is exactly
  \<open>wav_y[:882000]\<close>. A probe shorter than the window is used whole and unchanged; a probe
  at least as long as the window is cut to exactly \<open>882000\<close> samples, each equal to the
  sample of the probe at the same position; the correlation is the convolution with that
  prefix reversed, and two probes with the same first \<open>882000\<close> samples give the same
  result of the estimator.
\<close>

theorem truncate_probe_window:
  "truncate_probe wav_y = take (60 * 14700) wav_y \<and>
   length (truncate_probe wav_y) = min (length wav_y) (60 * 14700) \<and>
   length (truncate_probe wav_y) \<le> 60 * 14700 \<and>
   truncate_probe wav_y = take (length (truncate_probe wav_y)) wav_y \<and>
   (length wav_y < 60 * 14700 \<longrightarrow> truncate_probe wav_y = wav_y) \<and>
   (60 * 14700 \<le> length wav_y \<longrightarrow>
      length (truncate_probe wav_y) = 60 * 14700 \<and>
      (\<forall>i<60 * 14700. truncate_probe wav_y ! i = wav_y ! i)) \<and>
   correlation video_y wav_y = fftconvolve video_y (rev (take (60 * 14700) wav_y)) \<and>
   correlation video_y wav_y = correlation video_y (truncate_probe wav_y) \<and>
   find_audio_offset video_y wav_y = find_audio_offset video_y (truncate_probe wav_y) \<and>
   (take (60 * 14700) wav_y = take (60 * 14700) wav_y' \<longrightarrow>
      find_audio_offset video_y wav_y = find_audio_offset video_y wav_y')"
proof -
  have eq: "truncate_probe wav_y = take (60 * 14700) wav_y"
    by (simp add: truncate_probe_def sr_def)
  have len: "length (truncate_probe wav_y) = min (length wav_y) (60 * 14700)"
    unfolding eq by simp
  have le: "length (truncate_probe wav_y) \<le> 60 * 14700"
    unfolding len by simp
  have pre: "truncate_probe wav_y = take (length (truncate_probe wav_y)) wav_y"
    by (simp add: truncate_probe_def min_def)
  have short: "length wav_y < 60 * 14700 \<longrightarrow> truncate_probe wav_y = wav_y"
    unfolding eq by simp
  have long: "60 * 14700 \<le> length wav_y \<longrightarrow>
      length (truncate_probe wav_y) = 60 * 14700 \<and>
      (\<forall>i<60 * 14700. truncate_probe wav_y ! i = wav_y ! i)"
    unfolding eq by simp
  have corr: "correlation video_y wav_y = fftconvolve video_y (rev (take (60 * 14700) wav_y))"
    by (simp add: correlation_def eq)
  have corr': "correlation video_y wav_y = correlation video_y (truncate_probe wav_y)"
    by (simp add: correlation_truncate)
  have est: "find_audio_offset video_y wav_y = find_audio_offset video_y (truncate_probe wav_y)"
    by (simp add: find_audio_offset_truncate)
  have same: "take (60 * 14700) wav_y = take (60 * 14700) wav_y' \<longrightarrow>
      find_audio_offset video_y wav_y = find_audio_offset video_y wav_y'"
  proof
    assume "take (60 * 14700) wav_y = take (60 * 14700) wav_y'"
    then have "truncate_probe wav_y = truncate_probe wav_y'"
      by (simp add: truncate_probe_def sr_def)
    then have "find_audio_offset video_y (truncate_probe wav_y)
        = find_audio_offset video_y (truncate_probe wav_y')" by simp
    then show "find_audio_offset video_y wav_y = find_audio_offset video_y wav_y'"
      by (simp only: find_audio_offset_truncate)
  qed
  from eq len le pre short long corr corr' est same show ?thesis by blast
qed

theorem truncate_probe_window_witness:
  "length [3, 40, 5 :: real] < 60 * 14700 \<and> truncate_probe [3, 40, 5] = [3, 40, 5] \<and>
   60 * 14700 \<le> length (replicate 882000 3 @ [40, 5 :: real]) \<and>
   truncate_probe (replicate 882000 3 @ [40, 5]) = replicate 882000 3 \<and>
   take (60 * 14700) (replicate 882000 3 @ [40, 5 :: real])
     = take (60 * 14700) (replicate 882000 3 @ [7]) \<and>
   find_audio_offset [1] (replicate 882000 3 @ [40, 5])
     = find_audio_offset [1] (replicate 882000 3 @ [7])"
proof -
  let ?long = "replicate 882000 3 @ [40, 5 :: real]"
  let ?other = "replicate 882000 3 @ [7 :: real]"
  note short = truncate_probe_window [of "[3, 40, 5]" "[]" "[]"]
  note long = truncate_probe_window [of ?long "[1]" ?other]
  have a: "length [3, 40, 5 :: real] < 60 * 14700" by simp
  have b: "truncate_probe [3, 40, 5] = [3, 40, 5]" using short a by blast
  have c: "60 * 14700 \<le> length ?long" by simp
  have "truncate_probe ?long = take (60 * 14700) ?long" using long by blast
  then have d: "truncate_probe ?long = replicate 882000 3" by simp
  have e: "take (60 * 14700) ?long = take (60 * 14700) ?other" by simp
  have f: "find_audio_offset [1] ?long = find_audio_offset [1] ?other" using long e by blast
  from a b c d e f show ?thesis by blast
qed

subsection \<open>C10: the offset lies inside the video\<close>

text \<open>
  Claim C10. For non-empty signals on which the estimation succeeds, the index of the
  maximum is at most \<open>len(reference) + len(probe) - 2\<close> (the probe as truncated), the lag is
  at most \<open>len(reference) - 2\<close> samples, and the returned offset is strictly less than the
  duration of the reference signal in seconds.
\<close>

theorem offset_below_duration:
  assumes "video_y \<noteq> []" and "wav_y \<noteq> []"
    and "find_audio_offset video_y wav_y = Inr r"
  shows "\<exists>i b. np_argmax (correlation video_y wav_y) = Inr i
           \<and> i + 2 \<le> length video_y + length (truncate_probe wav_y)
           \<and> best_offset video_y wav_y = Inr b
           \<and> b \<le> int (length video_y) - 2
           \<and> r < real (length video_y) / real sr"
proof -
  from assms(3) obtain i where
    am: "np_argmax (correlation video_y wav_y) = Inr i"
    and bo: "best_offset video_y wav_y = Inr (int i - int (length (truncate_probe wav_y)))"
    and r: "r = max (real_of_int (int i - int (length (truncate_probe wav_y))) / real sr) 0"
    by (rule find_audio_offset_InrD)
  let ?b = "int i - int (length (truncate_probe wav_y))"
  have bound: "i + 2 \<le> length video_y + length (truncate_probe wav_y)"
    using am by (rule correlation_nonempty(3))
  then have b: "?b \<le> int (length video_y) - 2" by linarith
  then have "real_of_int ?b \<le> real (length video_y) - 2" by linarith
  then have "real_of_int ?b < real (length video_y)" by linarith
  then have "real_of_int ?b / real sr < real (length video_y) / real sr"
    by (simp add: sr_def divide_strict_right_mono)
  moreover have "0 < real (length video_y) / real sr"
    using assms(1) by (simp add: sr_def)
  ultimately have "r < real (length video_y) / real sr" unfolding r by simp
  with am bound bo b show ?thesis by blast
qed

theorem offset_below_duration_witness:
  "[0, 0, 3, 40, 5] \<noteq> ([] :: real list) \<and> [3, 40, 5] \<noteq> ([] :: real list) \<and>
   find_audio_offset [0, 0, 3, 40, 5] [3, 40, 5] = Inr (1 / 14700) \<and>
   (1 / 14700 :: real) < real (length [0, 0, 3, 40, 5 :: real]) / real sr"
proof -
  have h: "find_audio_offset [0, 0, 3, 40, 5] [3, 40, 5] = Inr (1 / 14700)"
    by (simp add: estimator_eval)
  have "[0, 0, 3, 40, 5] \<noteq> ([] :: real list)" and "[3, 40, 5] \<noteq> ([] :: real list)"
    by simp_all
  from offset_below_duration [OF this h] h show ?thesis by (simp add: sr_def)
qed

section \<open>Properties of the pipeline\<close>

subsection \<open>The six ways a run can end\<close>

lemma unlink_missing_ok: "fst (unlink True p s) = Inr ()" and "p \<notin> files (snd (unlink True p s))"
  by (simp_all add: unlink_def)

lemma unlink_absent: "p \<notin> files s \<Longrightarrow> unlink True p s = (Inr (), s)"
  by (simp add: unlink_def)

lemma process_video_cases:
  fixes w iv ia ov s
  defines "R \<equiv> process_video w iv ia ov s" and "temp \<equiv> temp_audio iv"
  obtains
    (NoTool) e where "check_ffmpeg w = Inl e"
      and "R = (Inl e, s\<lparr>trace := trace s @ [CheckTool]\<rparr>)"
  | (NoDuration) e where "check_ffmpeg w = Inr ()" and "get_audio_duration w ia = Inl e"
      and "R = (Inl e, s\<lparr>trace := trace s @ [CheckTool, ProbeDuration]\<rparr>)"
  | (NoExtract) e d where "check_ffmpeg w = Inr ()" and "get_audio_duration w ia = Inr d"
      and "run_checked w (extract_command iv temp) = Inl e"
      and "R = (Inl e, s\<lparr>trace := trace s @ [CheckTool, ProbeDuration, ExtractAudio]\<rparr>)"
  | (NoOffset) e d c where "check_ffmpeg w = Inr ()" and "get_audio_duration w ia = Inr d"
      and "run_checked w (extract_command iv temp) = Inr c"
      and "load_and_find_offset w temp ia = Inl e"
      and "R = (Inl e, s\<lparr>files := insert temp (files s),
                          trace := trace s @ [CheckTool, ProbeDuration, ExtractAudio,
                                              EstimateOffset]\<rparr>)"
  | (NoTranscode) e d c r where "check_ffmpeg w = Inr ()" and "get_audio_duration w ia = Inr d"
      and "run_checked w (extract_command iv temp) = Inr c"
      and "load_and_find_offset w temp ia = Inr r"
      and "run_checked w (transcode_command w r iv ia (get_video_bitrate w iv) d ov) = Inl e"
      and "R = (Inl e, s\<lparr>files := insert temp (files s),
                          trace := trace s @ [CheckTool, ProbeDuration, ExtractAudio,
                                              EstimateOffset, ProbeBitrate, BuildRequest,
                                              Transcode],
                          requests := requests s @
                            [transcode_command w r iv ia (get_video_bitrate w iv) d ov]\<rparr>)"
  | (Done) d c r c' where "check_ffmpeg w = Inr ()" and "get_audio_duration w ia = Inr d"
      and "run_checked w (extract_command iv temp) = Inr c"
      and "load_and_find_offset w temp ia = Inr r"
      and "run_checked w (transcode_command w r iv ia (get_video_bitrate w iv) d ov) = Inr c'"
      and "R = (Inr (), s\<lparr>files := insert ov (insert temp (files s)) - {temp},
                          trace := trace s @ pipeline_order,
                          requests := requests s @
                            [transcode_command w r iv ia (get_video_bitrate w iv) d ov]\<rparr>)"
proof (cases "check_ffmpeg w")
  case (Inl e)
  then have "R = (Inl e, s\<lparr>trace := trace s @ [CheckTool]\<rparr>)"
    by (simp add: R_def process_video_def enter_def)
  with Inl show thesis by (rule NoTool)
next
  case ok: (Inr u)
  then have ok': "check_ffmpeg w = Inr ()" by simp
  show thesis
  proof (cases "get_audio_duration w ia")
    case (Inl e)
    with ok have "R = (Inl e, s\<lparr>trace := trace s @ [CheckTool, ProbeDuration]\<rparr>)"
      by (simp add: R_def process_video_def enter_def)
    with ok' Inl show thesis by (rule NoDuration)
  next
    case dur: (Inr d)
    show thesis
    proof (cases "run_checked w (extract_command iv temp)")
      case (Inl e)
      with ok dur have "R = (Inl e, s\<lparr>trace := trace s @ [CheckTool, ProbeDuration, ExtractAudio]\<rparr>)"
        by (simp add: R_def temp_def process_video_def enter_def extract_audio_def)
      with ok' dur Inl show thesis by (rule NoExtract)
    next
      case ext: (Inr c)
      show thesis
      proof (cases "load_and_find_offset w temp ia")
        case (Inl e)
        with ok dur ext have "R = (Inl e, s\<lparr>files := insert temp (files s),
            trace := trace s @ [CheckTool, ProbeDuration, ExtractAudio, EstimateOffset]\<rparr>)"
          by (simp add: R_def temp_def process_video_def enter_def extract_audio_def)
        with ok' dur ext Inl show thesis by (rule NoOffset)
      next
        case off: (Inr r)
        let ?cmd = "transcode_command w r iv ia (get_video_bitrate w iv) d ov"
        show thesis
        proof (cases "run_checked w ?cmd")
          case (Inl e)
          with ok dur ext off have "R = (Inl e, s\<lparr>files := insert temp (files s),
              trace := trace s @ [CheckTool, ProbeDuration, ExtractAudio, EstimateOffset,
                                  ProbeBitrate, BuildRequest, Transcode],
              requests := requests s @ [?cmd]\<rparr>)"
            by (simp add: R_def temp_def process_video_def enter_def extract_audio_def)
          with ok' dur ext off Inl show thesis by (rule NoTranscode)
        next
          case tr: (Inr c')
          with ok dur ext off have "R = (Inr (), s\<lparr>files := insert ov (insert temp (files s)) - {temp},
              trace := trace s @ pipeline_order,
              requests := requests s @ [?cmd]\<rparr>)"
            by (simp add: R_def temp_def process_video_def enter_def extract_audio_def
                  unlink_def pipeline_order_def Let_def)
          with ok' dur ext off tr show thesis by (rule Done)
        qed
      qed
    qed
  qed
qed

lemmas pipeline_eval =
  process_video_def Let_def enter_def check_ffmpeg_def get_audio_duration_def run_checked_def
  duration_command_def demo_world_def py_strip_def py_isspace_def extract_audio_def
  extract_command_def load_and_find_offset_def parent_def temp_audio_def estimator_eval
  get_video_bitrate_def bitrate_command_def py_isdigit_def is_digit_char_def py_int_def
  transcode_command_def str_bitrate_def unlink_def start_def digit_char_def insert_Diff_if
  pipeline_order_def

lemma demo_run_ok:
  "process_video (demo_world [0, 0, 3, 40, 5] [3, 40, 5] (''1200'' @ [CHR 0x0A]) 0)
        [''v.mp4''] [''a.wav''] [''o.mp4''] (start {[''v.mp4''], [''a.wav'']}) =
   (Inr (), \<lparr>files = {[''o.mp4''], [''v.mp4''], [''a.wav'']}, trace = pipeline_order,
     requests = [[''ffmpeg'', ''-y'', ''-ss'', ''6.802721088435374e-05'', ''-i'', ''v.mp4'',
         ''-i'', ''a.wav'', ''-map'', ''0:v:0'', ''-map'', ''1:a:0'', ''-c:v'',
         ''libx265'', ''-c:a'', ''aac'', ''-b:v'', ''1200'', ''-b:a'',
         ''128k'', ''-t'', ''12.5'', ''-vf'', ''fade=t=out:st=11.5:d=1'',
         ''o.mp4'']]\<rparr>)"
  by (simp add: pipeline_eval)

lemma demo_run_transcode_fails:
  "process_video (demo_world [0, 0, 3, 40, 5] [3, 40, 5] (''1200'' @ [CHR 0x0A]) 1)
        [''v.mp4''] [''a.wav''] [''o.mp4''] (start {[''v.mp4''], [''a.wav'']}) =
   (Inl CalledProcessError,
    \<lparr>files = {[''temp_video_audio.wav''], [''v.mp4''], [''a.wav'']},
     trace = [CheckTool, ProbeDuration, ExtractAudio, EstimateOffset, ProbeBitrate,
              BuildRequest, Transcode],
     requests = [[''ffmpeg'', ''-y'', ''-ss'', ''6.802721088435374e-05'', ''-i'', ''v.mp4'',
         ''-i'', ''a.wav'', ''-map'', ''0:v:0'', ''-map'', ''1:a:0'', ''-c:v'',
         ''libx265'', ''-c:a'', ''aac'', ''-b:v'', ''1200'', ''-b:a'',
         ''128k'', ''-t'', ''12.5'', ''-vf'', ''fade=t=out:st=11.5:d=1'',
         ''o.mp4'']]\<rparr>)"
  by (simp add: pipeline_eval)

lemma demo_run_quiet:
  "process_video (demo_world [1] [1] (''1200'' @ [CHR 0x0A]) 0)
        [''v.mp4''] [''a.wav''] [''o.mp4''] (start {[''v.mp4''], [''a.wav'']}) =
   (Inl (SystemExit 1 no_alignment_msg),
    \<lparr>files = {[''temp_video_audio.wav''], [''v.mp4''], [''a.wav'']},
     trace = [CheckTool, ProbeDuration, ExtractAudio, EstimateOffset],
     requests = []\<rparr>)"
  by (simp add: pipeline_eval)

subsection \<open>C9: a zero-length signal\<close>

text \<open>
  Claim C9 says that a zero-length input is rejected by an input validation. The code has
  no validation: the error comes out of \<open>np.argmax\<close>, applied to the empty correlation.
\<close>

theorem empty_input_counterexample:
  "correlation [] [1, 2] = [] \<and> np_argmax (correlation [] [1, 2]) = Inl ValueError \<and>
   find_audio_offset [] [1, 2] = Inl ValueError"
  by (simp add: find_audio_offset_def best_offset_def correlation_def fftconvolve_def
        np_argmax_def)

text \<open>
  Claim C9, amended. When either signal is empty the correlation is empty, and the
  estimator fails with the ValueError that \<open>np.argmax\<close> raises on an empty sequence,
  before the threshold test; nothing is divided by zero and no offset is returned.
\<close>

theorem empty_input_value_error:
  assumes "video_y = [] \<or> wav_y = []"
  shows "correlation video_y wav_y = [] \<and>
         np_argmax (correlation video_y wav_y) = Inl ValueError \<and>
         best_offset video_y wav_y = Inl ValueError \<and>
         find_audio_offset video_y wav_y = Inl ValueError"
proof -
  from assms have "video_y = [] \<or> truncate_probe wav_y = []"
    by (auto simp: truncate_probe_def)
  then have c: "correlation video_y wav_y = []"
    by (auto simp: correlation_def fftconvolve_def)
  then show ?thesis
    by (simp add: find_audio_offset_def best_offset_def np_argmax_def)
qed

theorem empty_input_value_error_witness:
  "([3] = ([] :: real list) \<or> ([] :: real list) = []) \<and>
   find_audio_offset [3] [] = Inl ValueError"
  using empty_input_value_error [of "[3]" "[]"] by simp

subsection \<open>C3: the acceptance threshold\<close>

text \<open>
  Claim C3 says that a result is used only when its confidence exceeds 1000. The test of
  the code is \<open>np.max(correlation) < 1000\<close>: a confidence of exactly 1000 is accepted.
\<close>

theorem threshold_counterexample:
  "np_max (correlation [1000] [1]) = Inr 1000 \<and> \<not> (1000 :: real) < 1000 \<and>
   find_audio_offset [1000] [1] = Inr 0"
  by (simp add: estimator_eval)

lemma below_threshold_exits:
  assumes "np_max (correlation video_y wav_y) = Inr c" and "c < 1000"
  shows "find_audio_offset video_y wav_y = Inl (SystemExit 1 no_alignment_msg)"
proof -
  from assms(1) have "correlation video_y wav_y \<noteq> []"
    by (auto simp: np_max_def split: if_splits)
  then obtain i where "np_argmax (correlation video_y wav_y) = Inr i"
    using np_argmax_nonempty by blast
  with assms show ?thesis
    by (simp add: find_audio_offset_def best_offset_def)
qed

lemma accepted_confidence:
  assumes "find_audio_offset video_y wav_y = Inr r"
  shows "\<exists>c. np_max (correlation video_y wav_y) = Inr c \<and> 1000 \<le> c"
  using assms by (rule find_audio_offset_InrD) simp

lemma request_needs_offset:
  assumes "requests (snd (process_video w iv ia ov s)) \<noteq> requests s"
  shows "\<exists>r d. load_and_find_offset w (temp_audio iv) ia = Inr r \<and>
           requests (snd (process_video w iv ia ov s)) =
             requests s @ [transcode_command w r iv ia (get_video_bitrate w iv) d ov]"
  using assms by (cases rule: process_video_cases [of w iv ia ov s]) auto

lemma load_and_find_offset_InrD:
  assumes "load_and_find_offset w p q = Inr r"
  shows "\<exists>video_y wav_y. librosa_load w p = Inr video_y \<and> librosa_load w q = Inr wav_y \<and>
           find_audio_offset video_y wav_y = Inr r"
  using assms by (auto simp: load_and_find_offset_def split: sum.splits)

lemma quiet_run_stops:
  assumes "librosa_load w (temp_audio iv) = Inr video_y" and "librosa_load w ia = Inr wav_y"
    and "np_max (correlation video_y wav_y) = Inr c" and "c < 1000"
  shows "requests (snd (process_video w iv ia ov s)) = requests s"
    and "fst (process_video w iv ia ov s) \<noteq> Inr ()"
    and "length (trace s) + 4 \<le> length (trace (snd (process_video w iv ia ov s))) \<longrightarrow>
         fst (process_video w iv ia ov s) = Inl (SystemExit 1 no_alignment_msg)"
proof -
  have off: "load_and_find_offset w (temp_audio iv) ia = Inl (SystemExit 1 no_alignment_msg)"
    using assms by (simp add: load_and_find_offset_def below_threshold_exits)
  show "requests (snd (process_video w iv ia ov s)) = requests s"
    using off by (cases rule: process_video_cases [of w iv ia ov s]) auto
  show "fst (process_video w iv ia ov s) \<noteq> Inr ()"
    using off by (cases rule: process_video_cases [of w iv ia ov s]) auto
  show "length (trace s) + 4 \<le> length (trace (snd (process_video w iv ia ov s))) \<longrightarrow>
         fst (process_video w iv ia ov s) = Inl (SystemExit 1 no_alignment_msg)"
    using off by (cases rule: process_video_cases [of w iv ia ov s]) auto
qed

text \<open>
  Claim C3, amended. The result of the estimator is used only when its confidence (the
  maximum of the correlation) is at least 1000. Whenever the confidence is below 1000 the
  estimator ends in \<open>sys.exit(1)\<close> with the message "No good alignment found"; a run of the
  pipeline whose signals have such a confidence issues no transcode request and does not
  succeed, and once it has reached the estimation it ends with exit status 1. Every
  transcode request that is issued carries the offset of an accepted estimation.
\<close>

theorem threshold_guard:
  "(find_audio_offset video_y wav_y = Inr r \<longrightarrow>
      (\<exists>c. np_max (correlation video_y wav_y) = Inr c \<and> 1000 \<le> c)) \<and>
   (np_max (correlation video_y wav_y) = Inr c \<and> c < 1000 \<longrightarrow>
      find_audio_offset video_y wav_y = Inl (SystemExit 1 no_alignment_msg) \<and>
      exit_status (Inl (SystemExit 1 no_alignment_msg)) = 1) \<and>
   (librosa_load w (temp_audio iv) = Inr video_y \<and> librosa_load w ia = Inr wav_y \<and>
    np_max (correlation video_y wav_y) = Inr c \<and> c < 1000 \<longrightarrow>
      requests (snd (process_video w iv ia ov s)) = requests s \<and>
      fst (process_video w iv ia ov s) \<noteq> Inr () \<and>
      (length (trace s) + 4 \<le> length (trace (snd (process_video w iv ia ov s))) \<longrightarrow>
         fst (process_video w iv ia ov s) = Inl (SystemExit 1 no_alignment_msg) \<and>
         exit_status (fst (process_video w iv ia ov s)) = 1)) \<and>
   (requests (snd (process_video w iv ia ov s)) \<noteq> requests s \<longrightarrow>
      (\<exists>v y r' c' d. librosa_load w (temp_audio iv) = Inr v \<and> librosa_load w ia = Inr y \<and>
         find_audio_offset v y = Inr r' \<and> np_max (correlation v y) = Inr c' \<and> 1000 \<le> c' \<and>
         requests (snd (process_video w iv ia ov s)) =
           requests s @ [transcode_command w r' iv ia (get_video_bitrate w iv) d ov]))"
proof (intro conjI impI)
  assume "find_audio_offset video_y wav_y = Inr r"
  then show "\<exists>c. np_max (correlation video_y wav_y) = Inr c \<and> 1000 \<le> c"
    by (rule accepted_confidence)
next
  assume "np_max (correlation video_y wav_y) = Inr c \<and> c < 1000"
  then show "find_audio_offset video_y wav_y = Inl (SystemExit 1 no_alignment_msg)"
    by (simp add: below_threshold_exits)
next
  show "exit_status (Inl (SystemExit 1 no_alignment_msg)) = 1"
    by (simp add: exit_status_def)
next
  assume a: "librosa_load w (temp_audio iv) = Inr video_y \<and> librosa_load w ia = Inr wav_y \<and>
    np_max (correlation video_y wav_y) = Inr c \<and> c < 1000"
  then show "requests (snd (process_video w iv ia ov s)) = requests s"
    by (simp add: quiet_run_stops(1))
  from a show "fst (process_video w iv ia ov s) \<noteq> Inr ()"
    using quiet_run_stops(2) by blast
  assume l: "length (trace s) + 4 \<le> length (trace (snd (process_video w iv ia ov s)))"
  with a show e: "fst (process_video w iv ia ov s) = Inl (SystemExit 1 no_alignment_msg)"
    using quiet_run_stops(3) by blast
  then show "exit_status (fst (process_video w iv ia ov s)) = 1"
    by (simp add: exit_status_def)
next
  assume "requests (snd (process_video w iv ia ov s)) \<noteq> requests s"
  then obtain r' d where o: "load_and_find_offset w (temp_audio iv) ia = Inr r'"
    and q: "requests (snd (process_video w iv ia ov s)) =
             requests s @ [transcode_command w r' iv ia (get_video_bitrate w iv) d ov]"
    using request_needs_offset by blast
  from o obtain v y where l: "librosa_load w (temp_audio iv) = Inr v" "librosa_load w ia = Inr y"
    and f: "find_audio_offset v y = Inr r'"
    using load_and_find_offset_InrD by blast
  from f obtain c' where "np_max (correlation v y) = Inr c'" "1000 \<le> c'"
    using accepted_confidence by blast
  with l f q show "\<exists>v y r' c' d. librosa_load w (temp_audio iv) = Inr v \<and>
         librosa_load w ia = Inr y \<and>
         find_audio_offset v y = Inr r' \<and> np_max (correlation v y) = Inr c' \<and> 1000 \<le> c' \<and>
         requests (snd (process_video w iv ia ov s)) =
           requests s @ [transcode_command w r' iv ia (get_video_bitrate w iv) d ov]"
    by blast
qed

theorem threshold_guard_witness:
  "np_max (correlation [1] [1]) = Inr 1 \<and> (1 :: real) < 1000 \<and>
   find_audio_offset [1] [1] = Inl (SystemExit 1 no_alignment_msg) \<and>
   find_audio_offset [1000] [1] = Inr 0 \<and>
   (\<exists>c. np_max (correlation [1000] [1]) = Inr c \<and> 1000 \<le> c) \<and>
   fst (process_video (demo_world [1] [1] (''1200'' @ [CHR 0x0A]) 0)
        [''v.mp4''] [''a.wav''] [''o.mp4''] (start {[''v.mp4''], [''a.wav'']}))
     = Inl (SystemExit 1 no_alignment_msg)"
proof -
  have a: "np_max (correlation [1] [1]) = Inr 1" by (simp add: estimator_eval)
  have b: "find_audio_offset [1000] [1] = Inr 0" by (simp add: estimator_eval)
  have q: "fst (process_video (demo_world [1] [1] (''1200'' @ [CHR 0x0A]) 0)
        [''v.mp4''] [''a.wav''] [''o.mp4''] (start {[''v.mp4''], [''a.wav'']}))
     = Inl (SystemExit 1 no_alignment_msg)"
    by (simp only: demo_run_quiet fst_conv)
  from threshold_guard [of "[1]" "[1]" 0 1 undefined undefined undefined undefined undefined] a
  have "find_audio_offset [1] [1] = Inl (SystemExit 1 no_alignment_msg)" by simp
  moreover from threshold_guard [of "[1000]" "[1]" 0 1 undefined undefined undefined undefined undefined] b
  have "\<exists>c. np_max (correlation [1000] [1]) = Inr c \<and> 1000 \<le> c" by simp
  ultimately show ?thesis using a b q by simp
qed

subsection \<open>C6: the temporary audio file\<close>

text \<open>
  Claim C6, as stated, fails: the removal of the temporary audio is the last statement of
  \<open>process_video\<close> and nothing guards it, so a run whose final transcode fails ends with
  the temporary file still present. Here the transcoder exits with status 1.
\<close>

theorem cleanup_counterexample:
  "fst (process_video (demo_world [0, 0, 3, 40, 5] [3, 40, 5] (''1200'' @ [CHR 0x0A]) 1)
          [''v.mp4''] [''a.wav''] [''o.mp4''] (start {[''v.mp4''], [''a.wav'']}))
     = Inl CalledProcessError \<and>
   temp_audio [''v.mp4''] \<in>
     files (snd (process_video (demo_world [0, 0, 3, 40, 5] [3, 40, 5] (''1200'' @ [CHR 0x0A]) 1)
          [''v.mp4''] [''a.wav''] [''o.mp4''] (start {[''v.mp4''], [''a.wav'']}))) \<and>
   Transcode \<in>
     set (trace (snd (process_video (demo_world [0, 0, 3, 40, 5] [3, 40, 5] (''1200'' @ [CHR 0x0A]) 1)
          [''v.mp4''] [''a.wav''] [''o.mp4''] (start {[''v.mp4''], [''a.wav'']}))))"
  unfolding demo_run_transcode_fails by (simp add: temp_audio_def parent_def)

text \<open>
  Claim C6, amended. After every run of the pipeline that succeeds, the temporary audio
  file extracted from the video is no longer on the filesystem, and the run went through
  every step up to the cleanup. The removal itself never fails and leaves the file
  absent; when the file is already missing it changes nothing. A run that fails after the
  extraction step (in the estimation or in the final transcode) never reaches the cleanup
  and leaves the temporary file in place.
\<close>

theorem cleanup_after_success:
  "(fst (process_video w iv ia ov s) = Inr () \<longrightarrow>
      temp_audio iv \<notin> files (snd (process_video w iv ia ov s)) \<and>
      trace (snd (process_video w iv ia ov s)) = trace s @ pipeline_order) \<and>
   fst (unlink True p s) = Inr () \<and> p \<notin> files (snd (unlink True p s)) \<and>
   (p \<notin> files s \<longrightarrow> unlink True p s = (Inr (), s)) \<and>
   (fst (process_video w iv ia ov s) \<noteq> Inr () \<and>
    EstimateOffset \<in> set (drop (length (trace s)) (trace (snd (process_video w iv ia ov s)))) \<longrightarrow>
      temp_audio iv \<in> files (snd (process_video w iv ia ov s)) \<and>
      Cleanup \<notin> set (drop (length (trace s)) (trace (snd (process_video w iv ia ov s)))))"
proof (intro conjI impI)
  assume "fst (process_video w iv ia ov s) = Inr ()"
  then show "temp_audio iv \<notin> files (snd (process_video w iv ia ov s))"
    by (cases rule: process_video_cases [of w iv ia ov s]) auto
next
  assume "fst (process_video w iv ia ov s) = Inr ()"
  then show "trace (snd (process_video w iv ia ov s)) = trace s @ pipeline_order"
    by (cases rule: process_video_cases [of w iv ia ov s]) auto
next
  show "fst (unlink True p s) = Inr ()" by (simp add: unlink_def)
next
  show "p \<notin> files (snd (unlink True p s))" by (simp add: unlink_def)
next
  assume "p \<notin> files s"
  then show "unlink True p s = (Inr (), s)" by (rule unlink_absent)
next
  assume "fst (process_video w iv ia ov s) \<noteq> Inr () \<and>
    EstimateOffset \<in> set (drop (length (trace s)) (trace (snd (process_video w iv ia ov s))))"
  then show "temp_audio iv \<in> files (snd (process_video w iv ia ov s))"
    by (cases rule: process_video_cases [of w iv ia ov s]) auto
next
  assume "fst (process_video w iv ia ov s) \<noteq> Inr () \<and>
    EstimateOffset \<in> set (drop (length (trace s)) (trace (snd (process_video w iv ia ov s))))"
  then show "Cleanup \<notin> set (drop (length (trace s)) (trace (snd (process_video w iv ia ov s))))"
    by (cases rule: process_video_cases [of w iv ia ov s]) auto
qed

theorem cleanup_after_success_witness:
  "fst (process_video (demo_world [0, 0, 3, 40, 5] [3, 40, 5] (''1200'' @ [CHR 0x0A]) 0)
          [''v.mp4''] [''a.wav''] [''o.mp4''] (start {[''v.mp4''], [''a.wav'']})) = Inr () \<and>
   temp_audio [''v.mp4''] \<notin>
     files (snd (process_video (demo_world [0, 0, 3, 40, 5] [3, 40, 5] (''1200'' @ [CHR 0x0A]) 0)
          [''v.mp4''] [''a.wav''] [''o.mp4''] (start {[''v.mp4''], [''a.wav'']}))) \<and>
   [''gone.wav''] \<notin> files (start {[''v.mp4''], [''a.wav'']}) \<and>
   unlink True [''gone.wav''] (start {[''v.mp4''], [''a.wav'']})
     = (Inr (), start {[''v.mp4''], [''a.wav'']}) \<and>
   fst (process_video (demo_world [0, 0, 3, 40, 5] [3, 40, 5] (''1200'' @ [CHR 0x0A]) 1)
          [''v.mp4''] [''a.wav''] [''o.mp4''] (start {[''v.mp4''], [''a.wav'']})) \<noteq> Inr () \<and>
   temp_audio [''v.mp4''] \<in>
     files (snd (process_video (demo_world [0, 0, 3, 40, 5] [3, 40, 5] (''1200'' @ [CHR 0x0A]) 1)
          [''v.mp4''] [''a.wav''] [''o.mp4''] (start {[''v.mp4''], [''a.wav'']})))"
proof -
  let ?ok = "process_video (demo_world [0, 0, 3, 40, 5] [3, 40, 5] (''1200'' @ [CHR 0x0A]) 0)
          [''v.mp4''] [''a.wav''] [''o.mp4''] (start {[''v.mp4''], [''a.wav'']})"
  let ?bad = "process_video (demo_world [0, 0, 3, 40, 5] [3, 40, 5] (''1200'' @ [CHR 0x0A]) 1)
          [''v.mp4''] [''a.wav''] [''o.mp4''] (start {[''v.mp4''], [''a.wav'']})"
  note good = cleanup_after_success
    [of "demo_world [0, 0, 3, 40, 5] [3, 40, 5] (''1200'' @ [CHR 0x0A]) 0"
        "[''v.mp4'']" "[''a.wav'']" "[''o.mp4'']" "start {[''v.mp4''], [''a.wav'']}"
        "[''gone.wav'']"]
  note bad = cleanup_after_success
    [of "demo_world [0, 0, 3, 40, 5] [3, 40, 5] (''1200'' @ [CHR 0x0A]) 1"
        "[''v.mp4'']" "[''a.wav'']" "[''o.mp4'']" "start {[''v.mp4''], [''a.wav'']}"
        "[''gone.wav'']"]
  have a: "fst ?ok = Inr ()" unfolding demo_run_ok by simp
  have b: "temp_audio [''v.mp4''] \<notin> files (snd ?ok)" using good a by blast
  have c: "[''gone.wav''] \<notin> files (start {[''v.mp4''], [''a.wav'']})"
    by (simp add: start_def)
  have d: "unlink True [''gone.wav''] (start {[''v.mp4''], [''a.wav'']})
     = (Inr (), start {[''v.mp4''], [''a.wav'']})" using good c by blast
  have e: "fst ?bad \<noteq> Inr ()" unfolding demo_run_transcode_fails by simp
  have f: "EstimateOffset \<in> set (drop (length (trace (start {[''v.mp4''], [''a.wav'']})))
      (trace (snd ?bad)))"
    unfolding demo_run_transcode_fails by (simp add: start_def)
  have g: "temp_audio [''v.mp4''] \<in> files (snd ?bad)" using bad e f by blast
  from a b c d e g show ?thesis by blast
qed

subsection \<open>C7: the order of the steps\<close>

text \<open>
  Claim C7, as stated, fails: the duration of the external audio is probed before the
  audio of the video is extracted, and the bitrate is probed only after the estimation,
  so the metadata is not probed in one step after the estimation. In this successful run
  two steps precede the extraction: the check for the tool and the duration probe.
\<close>

theorem step_order_counterexample:
  "trace (snd (process_video (demo_world [0, 0, 3, 40, 5] [3, 40, 5] (''1200'' @ [CHR 0x0A]) 0)
          [''v.mp4''] [''a.wav''] [''o.mp4''] (start {[''v.mp4''], [''a.wav'']})))
     = [CheckTool, ProbeDuration, ExtractAudio, EstimateOffset, ProbeBitrate, BuildRequest,
        Transcode, Cleanup] \<and>
   takeWhile (\<lambda>st. st \<noteq> ExtractAudio)
     (trace (snd (process_video (demo_world [0, 0, 3, 40, 5] [3, 40, 5] (''1200'' @ [CHR 0x0A]) 0)
          [''v.mp4''] [''a.wav''] [''o.mp4''] (start {[''v.mp4''], [''a.wav'']}))))
     = [CheckTool, ProbeDuration]"
  unfolding demo_run_ok by (simp add: pipeline_order_def)

text \<open>
  Claim C7, amended. In every run the orchestrator performs its steps strictly in the
  order: check for the transcoder tool, probe the duration of the external audio, extract
  the comparable audio, estimate the offset, probe the bitrate, build the request,
  transcode, clean up. The steps of a run are always a prefix of that sequence; the run
  succeeds exactly when the prefix is the whole sequence; and a step begins only after
  the tool check, the duration probe, the extraction, the estimation and the transcode
  that precede it have each produced a valid result (the bitrate probe cannot fail: it
  yields a bitrate or nothing).
\<close>

theorem step_order:
  "\<exists>n. trace (snd (process_video w iv ia ov s)) = trace s @ take n pipeline_order \<and>
       n \<in> {1, 2, 3, 4, 7, 8} \<and>
       (fst (process_video w iv ia ov s) = Inr () \<longleftrightarrow> n = 8) \<and>
       (1 < n \<longrightarrow> check_ffmpeg w = Inr ()) \<and>
       (2 < n \<longrightarrow> (\<exists>d. get_audio_duration w ia = Inr d)) \<and>
       (3 < n \<longrightarrow> (\<exists>c. run_checked w (extract_command iv (temp_audio iv)) = Inr c)) \<and>
       (4 < n \<longrightarrow> (\<exists>r. load_and_find_offset w (temp_audio iv) ia = Inr r)) \<and>
       (7 < n \<longrightarrow> (\<exists>r d c. get_audio_duration w ia = Inr d \<and>
                      load_and_find_offset w (temp_audio iv) ia = Inr r \<and>
                      run_checked w (transcode_command w r iv ia (get_video_bitrate w iv) d ov)
                        = Inr c))"
proof (cases rule: process_video_cases [of w iv ia ov s])
  case (NoTool e)
  then show ?thesis
    by (intro exI [of _ 1]) (simp add: pipeline_order_def)
next
  case (NoDuration e)
  then show ?thesis
    by (intro exI [of _ 2]) (simp add: pipeline_order_def)
next
  case (NoExtract e d)
  then show ?thesis
    by (intro exI [of _ 3]) (simp add: pipeline_order_def)
next
  case (NoOffset e d c)
  then show ?thesis
    by (intro exI [of _ 4]) (simp add: pipeline_order_def)
next
  case (NoTranscode e d c r)
  then show ?thesis
    by (intro exI [of _ 7]) (simp add: pipeline_order_def)
next
  case (Done d c r c')
  then show ?thesis
    by (intro exI [of _ 8]) (simp add: pipeline_order_def)
qed

theorem step_order_witness:
  "\<exists>n. trace (snd (process_video (demo_world [1] [1] (''1200'' @ [CHR 0x0A]) 0)
          [''v.mp4''] [''a.wav''] [''o.mp4''] (start {[''v.mp4''], [''a.wav'']})))
        = take n pipeline_order \<and> 3 < n \<and> n = 4 \<and>
       (\<exists>c. run_checked (demo_world [1] [1] (''1200'' @ [CHR 0x0A]) 0)
              (extract_command [''v.mp4''] (temp_audio [''v.mp4''])) = Inr c)"
proof -
  let ?w = "demo_world [1] [1] (''1200'' @ [CHR 0x0A]) 0"
  let ?R = "process_video ?w [''v.mp4''] [''a.wav''] [''o.mp4''] (start {[''v.mp4''], [''a.wav'']})"
  from step_order [of ?w "[''v.mp4'']" "[''a.wav'']" "[''o.mp4'']" "start {[''v.mp4''], [''a.wav'']}"]
  obtain n where tr: "trace (snd ?R) = trace (start {[''v.mp4''], [''a.wav'']}) @ take n pipeline_order"
    and n: "n \<in> {1, 2, 3, 4, 7, 8}"
    and ex: "3 < n \<longrightarrow> (\<exists>c. run_checked ?w (extract_command [''v.mp4''] (temp_audio [''v.mp4''])) = Inr c)"
    by blast
  have len: "length (trace (snd ?R)) = 4" unfolding demo_run_quiet by simp
  from tr have tr': "trace (snd ?R) = take n pipeline_order" by (simp add: start_def)
  with len have "min n 8 = 4" by (simp add: pipeline_order_def)
  then have n4: "n = 4" by simp
  with tr' ex show ?thesis by auto
qed

subsection \<open>C8: a bitrate that cannot be obtained\<close>

text \<open>
  Claim C8. When the bitrate query gives no number (here the prober prints \<open>N/A\<close>),
  \<open>get_video_bitrate\<close> returns None and the pipeline goes on; but the request is not built
  without a bitrate: the code passes \<open>str(bitrate)\<close>, so the transcoder receives the
  option \<open>-b:v\<close> followed by the text \<open>None\<close>. That holds for every request built from an
  absent bitrate.
\<close>

theorem bitrate_none_in_request:
  "get_video_bitrate (demo_world [0, 0, 3, 40, 5] [3, 40, 5] (''N/A'' @ [CHR 0x0A]) 0) [''v.mp4'']
     = None \<and>
   requests (snd (process_video (demo_world [0, 0, 3, 40, 5] [3, 40, 5] (''N/A'' @ [CHR 0x0A]) 0)
          [''v.mp4''] [''a.wav''] [''o.mp4''] (start {[''v.mp4''], [''a.wav'']})))
     = [[''ffmpeg'', ''-y'', ''-ss'', ''6.802721088435374e-05'', ''-i'', ''v.mp4'',
         ''-i'', ''a.wav'', ''-map'', ''0:v:0'', ''-map'', ''1:a:0'', ''-c:v'',
         ''libx265'', ''-c:a'', ''aac'', ''-b:v'', ''None'', ''-b:a'',
         ''128k'', ''-t'', ''12.5'', ''-vf'', ''fade=t=out:st=11.5:d=1'',
         ''o.mp4'']] \<and>
   (\<forall>w r iv ia d ov. transcode_command w r iv ia None d ov ! 16 = ''-b:v'' \<and>
                      transcode_command w r iv ia None d ov ! 17 = ''None'')"
proof -
  have a: "get_video_bitrate (demo_world [0, 0, 3, 40, 5] [3, 40, 5] (''N/A'' @ [CHR 0x0A]) 0)
      [''v.mp4''] = None"
    by (simp add: pipeline_eval)
  have b: "requests (snd (process_video (demo_world [0, 0, 3, 40, 5] [3, 40, 5] (''N/A'' @ [CHR 0x0A]) 0)
          [''v.mp4''] [''a.wav''] [''o.mp4''] (start {[''v.mp4''], [''a.wav'']})))
     = [[''ffmpeg'', ''-y'', ''-ss'', ''6.802721088435374e-05'', ''-i'', ''v.mp4'',
         ''-i'', ''a.wav'', ''-map'', ''0:v:0'', ''-map'', ''1:a:0'', ''-c:v'',
         ''libx265'', ''-c:a'', ''aac'', ''-b:v'', ''None'', ''-b:a'',
         ''128k'', ''-t'', ''12.5'', ''-vf'', ''fade=t=out:st=11.5:d=1'',
         ''o.mp4'']]"
    by (simp add: pipeline_eval)
  have c: "\<forall>w r iv ia d ov. transcode_command w r iv ia None d ov ! 16 = ''-b:v'' \<and>
                      transcode_command w r iv ia None d ov ! 17 = ''None''"
    by (simp add: transcode_command_def str_bitrate_def)
  from a b c show ?thesis by blast
qed


section \<open>The estimator on a probe and its delayed copy\<close>

subsection \<open>The correlation of a signal with itself\<close>

text \<open>
  With \<open>f t\<close> the sample \<open>t\<close> of a signal of \<open>m\<close> samples, the correlation of the signal with
  itself at distance \<open>d\<close> is the sum of \<open>f t * f (t + d)\<close> over \<open>t < m - d\<close>. It never exceeds
  the sum of the squares, and stays strictly below it for \<open>d > 0\<close> unless the signal is
  silent.
\<close>

lemma autocorr_identity:
  fixes f :: "nat \<Rightarrow> real"
  assumes "d \<le> m"
  shows "2 * (\<Sum>t<m. f t * f t) - 2 * (\<Sum>t<m - d. f t * f (t + d)) =
         (\<Sum>t<m - d. (f t - f (t + d)) * (f t - f (t + d))) +
         (\<Sum>t<d. f t * f t) + (\<Sum>t\<in>{m - d..<m}. f t * f t)"
proof -
  let ?g = "\<lambda>t. f t * f t"
  have 1: "(\<Sum>t<m. ?g t) = (\<Sum>t<m - d. ?g t) + (\<Sum>t\<in>{m - d..<m}. ?g t)"
    using sum.atLeastLessThan_concat [of 0 "m - d" m ?g] by (simp add: lessThan_atLeast0)
  have 2: "(\<Sum>t<m. ?g t) = (\<Sum>t<d. ?g t) + (\<Sum>t\<in>{d..<m}. ?g t)"
    using sum.atLeastLessThan_concat [of 0 d m ?g] assms by (simp add: lessThan_atLeast0)
  have 3: "(\<Sum>t\<in>{d..<m}. ?g t) = (\<Sum>t<m - d. ?g (t + d))"
    using sum.shift_bounds_nat_ivl [of ?g 0 d "m - d"] assms by (simp add: lessThan_atLeast0)
  have 4: "(\<Sum>t<m - d. (f t - f (t + d)) * (f t - f (t + d))) =
      (\<Sum>t<m - d. ?g t) - 2 * (\<Sum>t<m - d. f t * f (t + d)) + (\<Sum>t<m - d. ?g (t + d))"
    by (simp add: algebra_simps sum.distrib sum_subtractf sum_distrib_left)
  from 1 2 3 4 show ?thesis by linarith
qed

lemma autocorr_le:
  fixes f :: "nat \<Rightarrow> real"
  shows "(\<Sum>t<m - d. f t * f (t + d)) \<le> (\<Sum>t<m. f t * f t)"
proof (cases "d \<le> m")
  case True
  have "0 \<le> (\<Sum>t<m - d. (f t - f (t + d)) * (f t - f (t + d)))"
    and "0 \<le> (\<Sum>t<d. f t * f t)" and "0 \<le> (\<Sum>t\<in>{m - d..<m}. f t * f t)"
    by (simp_all add: sum_nonneg)
  with autocorr_identity [OF True, of f] show ?thesis by linarith
next
  case False
  then have "m - d = 0" by simp
  then show ?thesis by (simp add: sum_nonneg)
qed

lemma autocorr_less:
  fixes f :: "nat \<Rightarrow> real"
  assumes d: "0 < d" and pos: "0 < (\<Sum>t<m. f t * f t)"
  shows "(\<Sum>t<m - d. f t * f (t + d)) < (\<Sum>t<m. f t * f t)"
proof (cases "d \<le> m")
  case True
  show ?thesis
  proof (rule ccontr)
    assume "\<not> ?thesis"
    then have ge: "(\<Sum>t<m. f t * f t) \<le> (\<Sum>t<m - d. f t * f (t + d))" by simp
    have n1: "0 \<le> (\<Sum>t<m - d. (f t - f (t + d)) * (f t - f (t + d)))"
      and n2: "0 \<le> (\<Sum>t<d. f t * f t)" and n3: "0 \<le> (\<Sum>t\<in>{m - d..<m}. f t * f t)"
      by (simp_all add: sum_nonneg)
    from autocorr_identity [OF True, of f] ge n1 n2 n3
    have z1: "(\<Sum>t<m - d. (f t - f (t + d)) * (f t - f (t + d))) = 0"
      and z2: "(\<Sum>t<d. f t * f t) = 0"
      by linarith+
    from z1 have per: "\<forall>t<m - d. f t = f (t + d)"
      by (simp add: sum_nonneg_eq_0_iff)
    from z2 have head: "\<forall>t<d. f t = 0"
      by (simp add: sum_nonneg_eq_0_iff)
    have zero: "t < m \<Longrightarrow> f t = 0" for t
    proof (induction t rule: less_induct)
      case (less t)
      show ?case
      proof (cases "t < d")
        case True
        with head show ?thesis by simp
      next
        case False
        with less.prems have "t - d < m - d" and "t - d < t" and "t - d + d = t" and "t - d < m"
          using d by simp_all
        with per less.IH [of "t - d"] show ?thesis by metis
      qed
    qed
    then have "(\<Sum>t<m. f t * f t) = 0" by simp
    with pos show False by simp
  qed
next
  case False
  then have "m - d = 0" by simp
  with pos show ?thesis by simp
qed

lemma fftconvolve_Cons_zero:
  assumes "a \<noteq> []" and "b \<noteq> []"
  shows "fftconvolve (0 # a) b = 0 # fftconvolve a b"
proof (rule nth_equalityI)
  from assms show "length (fftconvolve (0 # a) b) = length (0 # fftconvolve a b)"
    by (cases a; cases b) (simp_all add: length_fftconvolve)
next
  fix j assume "j < length (fftconvolve (0 # a) b)"
  then have j: "j < length a + length b" using assms by (simp add: length_fftconvolve)
  have upt: "[0..<Suc (length a)] = 0 # map Suc [0..<length a]"
    by (simp add: upt_conv_Cons map_Suc_upt del: upt_Suc)
  show "fftconvolve (0 # a) b ! j = (0 # fftconvolve a b) ! j"
  proof (cases j)
    case 0
    then show ?thesis using assms
      by (simp add: fftconvolve_def upt o_def del: upt_Suc)
  next
    case (Suc j')
    with j have "j' < length a + length b - 1" and "Suc j' < length a + length b" by simp_all
    then show ?thesis using assms Suc
      by (simp add: fftconvolve_def upt o_def del: upt_Suc cong: if_cong)
  qed
qed

lemma fftconvolve_pad:
  assumes "a \<noteq> []" and "b \<noteq> []"
  shows "fftconvolve (replicate k 0 @ a) b = replicate k 0 @ fftconvolve a b"
proof (induction k)
  case 0
  show ?case by simp
next
  case (Suc k)
  have "fftconvolve (replicate (Suc k) 0 @ a) b = fftconvolve (0 # (replicate k 0 @ a)) b"
    by simp
  also have "\<dots> = 0 # fftconvolve (replicate k 0 @ a) b"
    using assms by (intro fftconvolve_Cons_zero) simp_all
  finally show ?case using Suc by simp
qed


lemma np_max_at:
  assumes "c < length xs" and "\<forall>j<length xs. xs ! j \<le> xs ! c"
  shows "np_max xs = Inr (xs ! c)" and "\<exists>a\<le>c. np_argmax xs = Inr a"
proof -
  from assms(1) have ne: "xs \<noteq> []" by auto
  have mx: "Max (set xs) = xs ! c"
  proof (rule Max_eqI)
    show "finite (set xs)" by simp
    show "y \<le> xs ! c" if "y \<in> set xs" for y
      using that assms(2) by (auto simp: in_set_conv_nth)
    show "xs ! c \<in> set xs" using assms(1) by simp
  qed
  with ne show "np_max xs = Inr (xs ! c)" by (simp add: np_max_def)
  from ne obtain a where a: "np_argmax xs = Inr a" using np_argmax_nonempty by blast
  from assms(1) mx a have "a \<le> c" by (intro np_argmax_first [of c xs a]) simp_all
  with a show "\<exists>a\<le>c. np_argmax xs = Inr a" by blast
qed

lemma np_argmax_at:
  assumes "c < length xs" and "\<forall>j<length xs. xs ! j \<le> xs ! c" and "\<forall>j<c. xs ! j < xs ! c"
  shows "np_argmax xs = Inr c"
proof -
  from np_max_at(2) [OF assms(1,2)] obtain a where le: "a \<le> c" and a: "np_argmax xs = Inr a"
    by blast
  from np_max_at(1) [OF assms(1,2)] assms(1) have mx: "Max (set xs) = xs ! c"
    by (auto simp: np_max_def split: if_splits)
  from np_argmax_InrD(2) [OF a] mx have "xs ! a = xs ! c" by simp
  with assms(3) le have "a = c" by (cases "a < c") auto
  with a show ?thesis by simp
qed

lemma sum_list_squares:
  "(\<Sum>x\<leftarrow>p. x * x) = (\<Sum>t<length p. p ! t * (p ! t :: real))"
  by (simp add: sum_list_sum_nth lessThan_atLeast0)

lemma self_conv_nth:
  assumes "j < 2 * length p - 1"
  shows "fftconvolve p (rev p) ! j =
    (\<Sum>i<length p. if i \<le> j \<and> j - i < length p
                     then p ! i * p ! (length p - 1 - (j - i)) else 0)"
proof -
  from assms have ne: "p \<noteq> []" by auto
  from assms have j: "j < length p + length p - 1" by simp
  have "fftconvolve p (rev p) ! j =
      (\<Sum>i\<leftarrow>[0..<length p]. if i \<le> j \<and> j - i < length p then p ! i * rev p ! (j - i) else 0)"
    using ne j by (simp add: fftconvolve_def cong: if_cong)
  also have "\<dots> = (\<Sum>i<length p. if i \<le> j \<and> j - i < length p then p ! i * rev p ! (j - i) else 0)"
    by (simp add: interv_sum_list_conv_sum_set_nat lessThan_atLeast0)
  also have "\<dots> = (\<Sum>i<length p. if i \<le> j \<and> j - i < length p
                     then p ! i * p ! (length p - 1 - (j - i)) else 0)"
    by (intro sum.cong refl) (simp add: rev_nth)
  finally show ?thesis .
qed

lemma self_conv_low:
  assumes "p \<noteq> []" and "j \<le> length p - 1"
  shows "fftconvolve p (rev p) ! j =
    (\<Sum>t<length p - (length p - 1 - j). p ! t * p ! (t + (length p - 1 - j)))"
proof -
  let ?m = "length p" and ?d = "length p - 1 - j"
  from assms have m: "0 < ?m" by simp
  with assms(2) have "j < 2 * ?m - 1" by linarith
  then have "fftconvolve p (rev p) ! j =
    (\<Sum>i<?m. if i \<le> j \<and> j - i < ?m then p ! i * p ! (?m - 1 - (j - i)) else 0)"
    by (rule self_conv_nth)
  also have "\<dots> = (\<Sum>i<?m. if i \<in> {..<?m - ?d} then p ! i * p ! (i + ?d) else 0)"
  proof (intro sum.cong refl)
    fix i assume "i \<in> {..<?m}"
    then have i: "i < ?m" by simp
    show "(if i \<le> j \<and> j - i < ?m then p ! i * p ! (?m - 1 - (j - i)) else 0) =
          (if i \<in> {..<?m - ?d} then p ! i * p ! (i + ?d) else 0)"
    proof (cases "i \<le> j")
      case True
      with assms(2) m have "j - i < ?m" and "?m - 1 - (j - i) = i + ?d" and "i < ?m - ?d"
        by linarith+
      with True show ?thesis by simp
    next
      case False
      with assms(2) m have "\<not> i < ?m - ?d" by linarith
      with False show ?thesis by simp
    qed
  qed
  also have "\<dots> = (\<Sum>i\<in>{..<?m} \<inter> {..<?m - ?d}. p ! i * p ! (i + ?d))"
    by (rule sum.inter_restrict [symmetric]) simp
  also have "{..<?m} \<inter> {..<?m - ?d} = {..<?m - ?d}" by auto
  finally show ?thesis .
qed

lemma self_conv_high:
  assumes "length p - 1 < j" and "j < 2 * length p - 1"
  shows "fftconvolve p (rev p) ! j =
    (\<Sum>t<length p - (j - (length p - 1)). p ! t * p ! (t + (j - (length p - 1))))"
proof -
  let ?m = "length p" and ?d = "j - (length p - 1)"
  from assms have m: "0 < ?m" by linarith
  from assms m have d: "?d \<le> ?m" by linarith
  from assms(2) have "fftconvolve p (rev p) ! j =
    (\<Sum>i<?m. if i \<le> j \<and> j - i < ?m then p ! i * p ! (?m - 1 - (j - i)) else 0)"
    by (rule self_conv_nth)
  also have "\<dots> = (\<Sum>i<?m. if i \<in> {?d..<?m} then p ! (i - ?d) * p ! i else 0)"
  proof (intro sum.cong refl)
    fix i assume "i \<in> {..<?m}"
    then have i: "i < ?m" by simp
    show "(if i \<le> j \<and> j - i < ?m then p ! i * p ! (?m - 1 - (j - i)) else 0) =
          (if i \<in> {?d..<?m} then p ! (i - ?d) * p ! i else 0)"
    proof (cases "?d \<le> i")
      case True
      with assms m i have "i \<le> j" and "j - i < ?m" and "?m - 1 - (j - i) = i - ?d"
        by linarith+
      with True i show ?thesis by simp
    next
      case False
      with assms m i have "\<not> j - i < ?m" by linarith
      with False show ?thesis by simp
    qed
  qed
  also have "\<dots> = (\<Sum>i\<in>{..<?m} \<inter> {?d..<?m}. p ! (i - ?d) * p ! i)"
    by (rule sum.inter_restrict [symmetric]) simp
  also have "{..<?m} \<inter> {?d..<?m} = {0 + ?d..<(?m - ?d) + ?d}" using d by auto
  also have "(\<Sum>i\<in>{0 + ?d..<(?m - ?d) + ?d}. p ! (i - ?d) * p ! i) =
      (\<Sum>t\<in>{0..<?m - ?d}. p ! (t + ?d - ?d) * p ! (t + ?d))"
    by (rule sum.shift_bounds_nat_ivl)
  also have "\<dots> = (\<Sum>t<?m - ?d. p ! t * p ! (t + ?d))"
    by (simp add: lessThan_atLeast0)
  finally show ?thesis .
qed

lemma self_conv_centre:
  assumes "p \<noteq> []"
  shows "fftconvolve p (rev p) ! (length p - 1) = (\<Sum>x\<leftarrow>p. x * x)"
  using self_conv_low [OF assms, of "length p - 1"] by (simp add: sum_list_squares)

lemma self_conv_le:
  assumes "j < 2 * length p - 1"
  shows "fftconvolve p (rev p) ! j \<le> (\<Sum>x\<leftarrow>p. x * x)"
proof (cases "j \<le> length p - 1")
  case True
  from assms have "p \<noteq> []" by auto
  from self_conv_low [OF this True] autocorr_le [where f = "(!) p" and m = "length p" and d = "length p - 1 - j"]
  show ?thesis by (simp add: sum_list_squares)
next
  case False
  then have "length p - 1 < j" by simp
  from self_conv_high [OF this assms] autocorr_le [where f = "(!) p" and m = "length p" and d = "j - (length p - 1)"]
  show ?thesis by (simp add: sum_list_squares)
qed

lemma self_conv_less:
  assumes "j < length p - 1" and "0 < (\<Sum>x\<leftarrow>p. x * x)"
  shows "fftconvolve p (rev p) ! j < (\<Sum>x\<leftarrow>p. x * x)"
proof -
  from assms(1) have ne: "p \<noteq> []" and le: "j \<le> length p - 1" and d: "0 < length p - 1 - j"
    by auto
  from assms(2) have "0 < (\<Sum>t<length p. p ! t * p ! t)" by (simp add: sum_list_squares)
  from autocorr_less [where f = "(!) p" and m = "length p", OF d this] self_conv_low [OF ne le]
  show ?thesis by (simp add: sum_list_squares)
qed

lemma sum_list_squares_nonneg: "0 \<le> (\<Sum>x\<leftarrow>p. x * (x :: real))"
  by (rule sum_list_nonneg) auto

lemma delayed_conv:
  fixes p :: "real list" and k :: nat
  assumes "p \<noteq> []"
  defines "xs \<equiv> fftconvolve (replicate k 0 @ p) (rev p)"
  shows "length xs = k + 2 * length p - 1"
    and "xs ! (k + length p - 1) = (\<Sum>x\<leftarrow>p. x * x)"
    and "\<forall>j<length xs. xs ! j \<le> (\<Sum>x\<leftarrow>p. x * x)"
    and "0 < (\<Sum>x\<leftarrow>p. x * x) \<Longrightarrow> \<forall>j<k + length p - 1. xs ! j < (\<Sum>x\<leftarrow>p. x * x)"
proof -
  let ?ys = "fftconvolve p (rev p)"
  from assms(1) have m: "0 < length p" by simp
  have xs: "xs = replicate k 0 @ ?ys"
    unfolding xs_def using assms(1) by (intro fftconvolve_pad) simp_all
  have lys: "length ?ys = 2 * length p - 1"
    using assms(1) by (simp add: length_fftconvolve)
  show len: "length xs = k + 2 * length p - 1"
    unfolding xs using lys m by (simp, linarith)
  have nth: "xs ! j = (if j < k then 0 else ?ys ! (j - k))" for j
    unfolding xs by (simp add: nth_append)
  from m have "k + length p - 1 - k = length p - 1" and "\<not> k + length p - 1 < k" by linarith+
  then show "xs ! (k + length p - 1) = (\<Sum>x\<leftarrow>p. x * x)"
    using self_conv_centre [OF assms(1)] by (simp add: nth)
  show "\<forall>j<length xs. xs ! j \<le> (\<Sum>x\<leftarrow>p. x * x)"
  proof (intro allI impI)
    fix j assume j: "j < length xs"
    show "xs ! j \<le> (\<Sum>x\<leftarrow>p. x * x)"
    proof (cases "j < k")
      case True
      then show ?thesis by (simp add: nth sum_list_squares_nonneg)
    next
      case False
      with j len m have "j - k < 2 * length p - 1" by linarith
      from self_conv_le [OF this] False show ?thesis by (simp add: nth)
    qed
  qed
  show "\<forall>j<k + length p - 1. xs ! j < (\<Sum>x\<leftarrow>p. x * x)" if pos: "0 < (\<Sum>x\<leftarrow>p. x * x)"
  proof (intro allI impI)
    fix j assume j: "j < k + length p - 1"
    show "xs ! j < (\<Sum>x\<leftarrow>p. x * x)"
    proof (cases "j < k")
      case True
      with pos show ?thesis by (simp add: nth)
    next
      case False
      with j m have "j - k < length p - 1" by linarith
      from self_conv_less [OF this pos] False show ?thesis by (simp add: nth)
    qed
  qed
qed


lemma delayed_probe_estimate:
  fixes p :: "real list" and k :: nat
  assumes pos: "0 < (\<Sum>x\<leftarrow>p. x * x)" and short: "length p \<le> 60 * 14700"
  shows "np_argmax (correlation (replicate k 0 @ p) p) = Inr (k + length p - 1)"
    and "np_max (correlation (replicate k 0 @ p) p) = Inr (\<Sum>x\<leftarrow>p. x * x)"
    and "best_offset (replicate k 0 @ p) p = Inr (int k - 1)"
proof -
  from pos have ne: "p \<noteq> []" by auto
  then have m: "0 < length p" by simp
  from short have tr: "truncate_probe p = p" by (simp add: truncate_probe_short)
  let ?xs = "fftconvolve (replicate k 0 @ p) (rev p)"
  have corr: "correlation (replicate k 0 @ p) p = ?xs" by (simp add: correlation_def tr)
  note dc = delayed_conv [OF ne, of k]
  from dc(1) m have c: "k + length p - 1 < length ?xs" by linarith
  from dc(3) have le: "\<forall>j<length ?xs. ?xs ! j \<le> ?xs ! (k + length p - 1)"
    unfolding dc(2) .
  from dc(4) [OF pos] have lt: "\<forall>j<k + length p - 1. ?xs ! j < ?xs ! (k + length p - 1)"
    unfolding dc(2) .
  from np_argmax_at [OF c le lt]
  show am: "np_argmax (correlation (replicate k 0 @ p) p) = Inr (k + length p - 1)"
    unfolding corr .
  from np_max_at(1) [OF c le]
  show "np_max (correlation (replicate k 0 @ p) p) = Inr (\<Sum>x\<leftarrow>p. x * x)"
    unfolding corr dc(2) .
  from m have "int (k + length p - 1) - int (length p) = int k - 1" by linarith
  with am show "best_offset (replicate k 0 @ p) p = Inr (int k - 1)"
    by (simp add: best_offset_def tr)
qed

lemma identical_estimate:
  fixes q :: "real list"
  assumes ne: "q \<noteq> []" and short: "length q \<le> 60 * 14700"
  shows "np_max (correlation q q) = Inr (\<Sum>x\<leftarrow>q. x * x)"
    and "\<forall>j<length (correlation q q). correlation q q ! j \<le> (\<Sum>x\<leftarrow>q. x * x)"
    and "\<exists>b<0. best_offset q q = Inr b"
proof -
  from ne have m: "0 < length q" by simp
  from short have tr: "truncate_probe q = q" by (simp add: truncate_probe_short)
  let ?xs = "fftconvolve q (rev q)"
  have corr: "correlation q q = ?xs" by (simp add: correlation_def tr)
  have dc1: "length ?xs = 2 * length q - 1"
    using delayed_conv(1) [OF ne, of 0] by simp
  have dc2: "?xs ! (length q - 1) = (\<Sum>x\<leftarrow>q. x * x)"
    using delayed_conv(2) [OF ne, of 0] by simp
  have dc3: "\<forall>j<length ?xs. ?xs ! j \<le> (\<Sum>x\<leftarrow>q. x * x)"
    using delayed_conv(3) [OF ne, of 0] by simp
  from dc1 m have c: "length q - 1 < length ?xs" by linarith
  from dc3 have le: "\<forall>j<length ?xs. ?xs ! j \<le> ?xs ! (length q - 1)"
    unfolding dc2 .
  from np_max_at(1) [OF c le]
  show "np_max (correlation q q) = Inr (\<Sum>x\<leftarrow>q. x * x)"
    unfolding corr dc2 .
  from dc3 show "\<forall>j<length (correlation q q). correlation q q ! j \<le> (\<Sum>x\<leftarrow>q. x * x)"
    unfolding corr .
  from np_max_at(2) [OF c le] obtain a where a: "a \<le> length q - 1"
    and am: "np_argmax (correlation q q) = Inr a" unfolding corr by blast
  from a m have "int a - int (length q) < 0" by linarith
  with am show "\<exists>b<0. best_offset q q = Inr b"
    by (simp add: best_offset_def tr)
qed


subsection \<open>C1: a reference that is the probe delayed by k samples\<close>

text \<open>
  Claim C1. Take a probe that fits the analysis window and is not silent (some sample is
  not zero), and as reference the probe delayed by \<open>k\<close> samples (\<open>k\<close> zeros in front).
  The full correlation has its first maximum at index \<open>k + len(probe) - 1\<close>, so the lag
  that the code computes, \<open>argmax - len(probe)\<close>, is \<open>k - 1\<close> for every \<open>k\<close>, and never
  \<open>k\<close>; the convention \<open>argmax - len(probe) + 1\<close> would give \<open>k\<close>. When the confidence
  reaches the threshold, the offset returned is \<open>(k - 1) / 14700\<close> seconds, clamped at 0.
\<close>

theorem delayed_probe_lag:
  fixes p :: "real list" and k :: nat
  assumes "0 < (\<Sum>x\<leftarrow>p. x * x)" and "length p \<le> 60 * 14700"
  shows "np_argmax (correlation (replicate k 0 @ p) p) = Inr (k + length p - 1) \<and>
         int (k + length p - 1) - int (length (truncate_probe p)) + 1 = int k \<and>
         best_offset (replicate k 0 @ p) p = Inr (int k - 1) \<and>
         best_offset (replicate k 0 @ p) p \<noteq> Inr (int k) \<and>
         (1000 \<le> (\<Sum>x\<leftarrow>p. x * x) \<longrightarrow>
            find_audio_offset (replicate k 0 @ p) p = Inr (max ((real k - 1) / real sr) 0))"
proof -
  note est = delayed_probe_estimate [OF assms, of k]
  from assms(1) have "p \<noteq> []" by auto
  then have m: "0 < length p" by simp
  from assms(2) have tr: "truncate_probe p = p" by (simp add: truncate_probe_short)
  from m have conv: "int (k + length p - 1) - int (length (truncate_probe p)) + 1 = int k"
    unfolding tr by linarith
  have ne: "best_offset (replicate k 0 @ p) p \<noteq> Inr (int k)"
    unfolding est(3) by simp
  have off: "1000 \<le> (\<Sum>x\<leftarrow>p. x * x) \<longrightarrow>
      find_audio_offset (replicate k 0 @ p) p = Inr (max ((real k - 1) / real sr) 0)"
    by (simp add: find_audio_offset_def est(2,3))
  from est(1) conv est(3) ne off show ?thesis by blast
qed

theorem delayed_probe_lag_witness:
  "0 < (\<Sum>x\<leftarrow>replicate 8000 (1 / 2 :: real). x * x) \<and>
   length (replicate 8000 (1 / 2 :: real)) \<le> 60 * 14700 \<and>
   1000 \<le> (\<Sum>x\<leftarrow>replicate 8000 (1 / 2 :: real). x * x) \<and>
   np_argmax (correlation (replicate 2 0 @ replicate 8000 (1 / 2)) (replicate 8000 (1 / 2)))
     = Inr 8001 \<and>
   best_offset (replicate 2 0 @ replicate 8000 (1 / 2)) (replicate 8000 (1 / 2)) = Inr 1 \<and>
   find_audio_offset (replicate 2 0 @ replicate 8000 (1 / 2)) (replicate 8000 (1 / 2))
     = Inr (1 / 14700)"
proof -
  let ?p = "replicate 8000 (1 / 2 :: real)"
  have e: "(\<Sum>x\<leftarrow>?p. x * x) = 2000" by (simp add: sum_list_replicate)
  have a: "0 < (\<Sum>x\<leftarrow>?p. x * x)" and c: "1000 \<le> (\<Sum>x\<leftarrow>?p. x * x)"
    unfolding e by simp_all
  have b: "length ?p \<le> 60 * 14700" by simp
  note t = delayed_probe_lag [OF a b, of 2]
  from t have "np_argmax (correlation (replicate 2 0 @ ?p) ?p) = Inr (2 + length ?p - 1)"
    by blast
  then have d: "np_argmax (correlation (replicate 2 0 @ ?p) ?p) = Inr 8001" by simp
  from t have "best_offset (replicate 2 0 @ ?p) ?p = Inr (int 2 - 1)" by blast
  then have f: "best_offset (replicate 2 0 @ ?p) ?p = Inr 1" by simp
  from t c have "find_audio_offset (replicate 2 0 @ ?p) ?p = Inr (max ((real 2 - 1) / real sr) 0)"
    by blast
  then have g: "find_audio_offset (replicate 2 0 @ ?p) ?p = Inr (1 / 14700)"
    by (simp add: sr_def)
  from a b c d f g show ?thesis by blast
qed

subsection \<open>C2: identical signals\<close>

text \<open>
  Claim C2, as stated, fails: the estimator accepts a result only when the confidence is
  at least 1000, so for a quiet signal (here two samples of \<open>0.5\<close>, self-correlation peak
  \<open>0.5\<close>) it returns no offset at all and exits with status 1.
\<close>

theorem identical_signals_counterexample:
  "[1 / 2, 1 / 2] \<noteq> ([] :: real list) \<and>
   np_max (correlation (truncate_probe [1 / 2, 1 / 2]) [1 / 2, 1 / 2]) = Inr (1 / 2) \<and>
   find_audio_offset (truncate_probe [1 / 2, 1 / 2]) [1 / 2, 1 / 2]
     = Inl (SystemExit 1 no_alignment_msg) \<and>
   find_audio_offset (truncate_probe [1 / 2, 1 / 2]) [1 / 2, 1 / 2] \<noteq> Inr 0"
  by (simp add: estimator_eval)

text \<open>
  Claim C2, amended. For every non-empty signal, running the estimator with the reference
  equal to the window-truncated probe gives a confidence equal to the signal's
  self-correlation peak, the sum of the squares of the samples of the truncated probe:
  that is the value of the correlation at the point where the two signals overlap
  entirely, and no correlation value exceeds it. When that confidence is at least 1000
  the offset is exactly 0 seconds; when it is below 1000 the estimator returns no offset
  and exits with status 1.
\<close>

theorem identical_signals:
  fixes p :: "real list"
  assumes "p \<noteq> []"
  shows "np_max (correlation (truncate_probe p) p) = Inr (\<Sum>x\<leftarrow>truncate_probe p. x * x) \<and>
         correlation (truncate_probe p) p ! (length (truncate_probe p) - 1)
           = (\<Sum>x\<leftarrow>truncate_probe p. x * x) \<and>
         (\<forall>j<length (correlation (truncate_probe p) p).
            correlation (truncate_probe p) p ! j \<le> (\<Sum>x\<leftarrow>truncate_probe p. x * x)) \<and>
         (1000 \<le> (\<Sum>x\<leftarrow>truncate_probe p. x * x) \<longrightarrow>
            find_audio_offset (truncate_probe p) p = Inr 0) \<and>
         ((\<Sum>x\<leftarrow>truncate_probe p. x * x) < 1000 \<longrightarrow>
            find_audio_offset (truncate_probe p) p = Inl (SystemExit 1 no_alignment_msg))"
proof -
  define q where "q = truncate_probe p"
  from assms have ne: "q \<noteq> []" by (simp add: q_def truncate_probe_def sr_def)
  have short: "length q \<le> 60 * 14700" by (simp add: q_def truncate_probe_def sr_def)
  then have tr: "truncate_probe q = q" by (simp add: truncate_probe_short)
  have corr: "correlation q p = correlation q q"
    unfolding q_def by (simp add: correlation_truncate)
  have fao: "find_audio_offset q p = find_audio_offset q q"
    unfolding q_def by (simp add: find_audio_offset_truncate)
  note est = identical_estimate [OF ne short]
  from est(3) obtain b where b: "b < 0" and bo: "best_offset q q = Inr b" by blast
  from b have neg: "real_of_int b / real sr < 0" by (simp add: sr_def divide_neg_pos)
  have centre: "correlation q q ! (length q - 1) = (\<Sum>x\<leftarrow>q. x * x)"
    using self_conv_centre [OF ne] by (simp add: correlation_def tr)
  have loud: "1000 \<le> (\<Sum>x\<leftarrow>q. x * x) \<longrightarrow> find_audio_offset q q = Inr 0"
    using neg by (simp add: find_audio_offset_def est(1) bo max_def)
  have quiet: "(\<Sum>x\<leftarrow>q. x * x) < 1000 \<longrightarrow>
      find_audio_offset q q = Inl (SystemExit 1 no_alignment_msg)"
    by (simp add: find_audio_offset_def est(1) bo)
  from est(1) centre est(2) loud quiet show ?thesis
    unfolding q_def [symmetric] corr fao by blast
qed

theorem identical_signals_witness:
  "replicate 8000 (1 / 2) \<noteq> ([] :: real list) \<and>
   1000 \<le> (\<Sum>x\<leftarrow>truncate_probe (replicate 8000 (1 / 2 :: real)). x * x) \<and>
   find_audio_offset (truncate_probe (replicate 8000 (1 / 2))) (replicate 8000 (1 / 2)) = Inr 0 \<and>
   np_max (correlation (truncate_probe (replicate 8000 (1 / 2))) (replicate 8000 (1 / 2)))
     = Inr 2000 \<and>
   [1 / 4] \<noteq> ([] :: real list) \<and>
   (\<Sum>x\<leftarrow>truncate_probe [1 / 4 :: real]. x * x) < 1000 \<and>
   find_audio_offset (truncate_probe [1 / 4]) [1 / 4] = Inl (SystemExit 1 no_alignment_msg)"
proof -
  let ?p = "replicate 8000 (1 / 2 :: real)"
  have tr: "truncate_probe ?p = ?p" and tr': "truncate_probe [1 / 4 :: real] = [1 / 4]"
    by (simp_all add: truncate_probe_short)
  have e: "(\<Sum>x\<leftarrow>truncate_probe ?p. x * x) = 2000"
    unfolding tr by (simp add: sum_list_replicate)
  have a: "?p \<noteq> []" and a': "[1 / 4] \<noteq> ([] :: real list)" by simp_all
  have c: "1000 \<le> (\<Sum>x\<leftarrow>truncate_probe ?p. x * x)" unfolding e by simp
  have c': "(\<Sum>x\<leftarrow>truncate_probe [1 / 4 :: real]. x * x) < 1000" unfolding tr' by simp
  note loud = identical_signals [OF a]
  note quiet = identical_signals [OF a']
  from loud c have d: "find_audio_offset (truncate_probe ?p) ?p = Inr 0" by blast
  from loud have "np_max (correlation (truncate_probe ?p) ?p)
      = Inr (\<Sum>x\<leftarrow>truncate_probe ?p. x * x)" by blast
  then have f: "np_max (correlation (truncate_probe ?p) ?p) = Inr 2000" unfolding e .
  from quiet c' have g: "find_audio_offset (truncate_probe [1 / 4]) [1 / 4]
      = Inl (SystemExit 1 no_alignment_msg)" by blast
  from a c d f a' c' g show ?thesis by blast
qed

end
